theory Spec2Isabelle
  imports Main "HOL-Library.AList"
begin

section \<open>BlinkDB: a shallow embedding of blinkDB.cpp\<close>

text \<open>
  The database of \<^verbatim>\<open>blinkDB.cpp\<close> is modelled by explicit state passing. A
  \<^verbatim>\<open>std::string\<close> is a \<open>string\<close> (a list of bytes). The unordered containers
  (\<^verbatim>\<open>std::unordered_set\<close>, \<^verbatim>\<open>std::unordered_map\<close>) are lists without
  duplicate keys: the order of the list stands for the iteration order of the container,
  which C++ leaves open, so every statement below is either about membership only or
  holds for every order. Exceptions are values of \<open>exn\<close>; a loop that may run forever
  returns \<open>None\<close> when it does.
\<close>

subsection \<open>Constants\<close>

definition CACHE_SIZE :: nat where
  "CACHE_SIZE = 1000"

definition BLOOM_FILTER_SIZE :: nat where
  "BLOOM_FILTER_SIZE = 10000"

definition CRLF :: string where
  "CRLF = [CHR 0x0D, CHR 0x0A]"

definition WRONGTYPE :: string where
  "WRONGTYPE = ''WRONGTYPE Operation against a key holding the wrong kind of value''"

subsection \<open>The standard library functions the program calls\<close>

datatype exn = invalid_argument | out_of_range | runtime_error string

text \<open>\<^verbatim>\<open>e.what()\<close>; for the two exceptions of \<^verbatim>\<open>std::stoi\<close> libstdc++ gives the
  name of the function.\<close>

fun what :: "exn \<Rightarrow> string" where
  "what invalid_argument = ''stoi''"
| "what out_of_range = ''stoi''"
| "what (runtime_error msg) = msg"

text \<open>\<^verbatim>\<open>isspace\<close>, \<^verbatim>\<open>isdigit\<close> and \<^verbatim>\<open>tolower\<close> in the C locale.\<close>

definition isspace :: "char \<Rightarrow> bool" where
  "isspace c = (c \<in> {CHR '' '', CHR 0x09, CHR 0x0A, CHR 0x0B, CHR 0x0C, CHR 0x0D})"

definition isdigit :: "char \<Rightarrow> bool" where
  "isdigit c = (48 \<le> (of_char c :: nat) \<and> (of_char c :: nat) \<le> 57)"

definition tolower :: "char \<Rightarrow> char" where
  "tolower c = (if 65 \<le> (of_char c :: nat) \<and> (of_char c :: nat) \<le> 90
                then char_of ((of_char c :: nat) + 32) else c)"

text \<open>Conversions to the machine types: \<^verbatim>\<open>int\<close> has 32 bits, \<^verbatim>\<open>size_t\<close> 64.\<close>

definition int32 :: "int \<Rightarrow> int" where
  "int32 x = (x + 2 ^ 31) mod 2 ^ 32 - 2 ^ 31"

definition size_t :: "int \<Rightarrow> nat" where
  "size_t x = nat (x mod 2 ^ 64)"

text \<open>\<^verbatim>\<open>std::to_string\<close> on an unsigned and on a signed number.\<close>

definition digit_char :: "nat \<Rightarrow> char" where
  "digit_char d = char_of (48 + d)"

function to_string :: "nat \<Rightarrow> string" where
  "to_string n = (if n < 10 then [digit_char n] else to_string (n div 10) @ [digit_char (n mod 10)])"
  by pat_completeness auto
termination
  by (relation "measure id") auto

declare to_string.simps [simp del]

definition to_string_int :: "int \<Rightarrow> string" where
  "to_string_int i = (if i < 0 then CHR ''-'' # to_string (nat (- i)) else to_string (nat i))"

text \<open>\<^verbatim>\<open>std::stoi\<close>: leading white space is skipped, a sign is optional, the longest run
  of digits is read and what follows is ignored; no digit at all is
  \<^verbatim>\<open>std::invalid_argument\<close>, a value outside \<^verbatim>\<open>int\<close> is \<^verbatim>\<open>std::out_of_range\<close>.\<close>

definition digit_val :: "char \<Rightarrow> nat" where
  "digit_val c = (of_char c :: nat) - 48"

definition digits_val :: "string \<Rightarrow> nat" where
  "digits_val ds = foldl (\<lambda>acc c. 10 * acc + digit_val c) 0 ds"

definition stoi :: "string \<Rightarrow> exn + int" where
  "stoi s =
     (let s1 = dropWhile isspace s;
          neg = (s1 \<noteq> [] \<and> hd s1 = CHR ''-'');
          s2 = (if s1 \<noteq> [] \<and> (hd s1 = CHR ''-'' \<or> hd s1 = CHR ''+'') then tl s1 else s1);
          ds = takeWhile isdigit s2
      in if ds = [] then Inl invalid_argument
         else let v = (if neg then - int (digits_val ds) else int (digits_val ds))
              in if v < - (2 ^ 31) \<or> 2 ^ 31 - 1 < v then Inl out_of_range else Inr v)"

text \<open>\<^verbatim>\<open>s.find(c, pos)\<close> (\<open>None\<close> is \<^verbatim>\<open>npos\<close>) and \<^verbatim>\<open>s.substr(pos, n)\<close>. Every
  call of \<^verbatim>\<open>substr\<close> in the program has \<open>pos \<le> length s\<close>, where it does not throw.\<close>

fun index_of :: "char \<Rightarrow> string \<Rightarrow> nat option" where
  "index_of c [] = None"
| "index_of c (x # xs) = (if x = c then Some 0 else map_option Suc (index_of c xs))"

definition str_find :: "string \<Rightarrow> char \<Rightarrow> nat \<Rightarrow> nat option" where
  "str_find s c pos = map_option (\<lambda>i. pos + i) (index_of c (drop pos s))"

definition substr :: "string \<Rightarrow> nat \<Rightarrow> nat \<Rightarrow> string" where
  "substr s pos n = take n (drop pos s)"

text \<open>The loop \<^verbatim>\<open>while (iss >> part) command_parts.push_back(part)\<close>: each extraction
  skips white space and reads up to the next white space.\<close>

function tokenize :: "string \<Rightarrow> string list" where
  "tokenize s =
     (let r = dropWhile isspace s
      in if r = [] then []
         else takeWhile (\<lambda>c. \<not> isspace c) r # tokenize (dropWhile (\<lambda>c. \<not> isspace c) r))"
  by pat_completeness auto
termination
proof (relation "measure length")
  fix s r
  assume r: "r = dropWhile isspace s" and ne: "r \<noteq> []"
  from ne obtain c cs where rc: "r = c # cs" by (cases r) auto
  have "\<not> isspace c" using r rc hd_dropWhile [of isspace s] by (metis list.sel(1) ne)
  then have "dropWhile (\<lambda>c. \<not> isspace c) r = dropWhile (\<lambda>c. \<not> isspace c) cs"
    using rc by simp
  moreover have "length (dropWhile (\<lambda>c. \<not> isspace c) cs) \<le> length cs"
    by (rule length_dropWhile_le)
  moreover have "length r \<le> length s"
    unfolding r by (rule length_dropWhile_le)
  ultimately show "(dropWhile (\<lambda>c. \<not> isspace c) r, s) \<in> measure length"
    using rc by simp
qed simp

declare tokenize.simps [simp del]

subsection \<open>Values\<close>

datatype ValueType = STRING | LIST | SET | HASH

text \<open>The four subclasses of \<^verbatim>\<open>DataType\<close> with their member: the string, the vector
  of elements, the unordered set of elements, the unordered map of fields.\<close>

datatype DataType =
    StringType string
  | ListType "string list"
  | SetType "string list"
  | HashType "(string \<times> string) list"

fun get_type :: "DataType \<Rightarrow> ValueType" where
  "get_type (StringType v) = STRING"
| "get_type (ListType es) = LIST"
| "get_type (SetType es) = SET"
| "get_type (HashType fs) = HASH"

subsubsection \<open>ListType\<close>

definition ListType_lpush :: "string \<Rightarrow> string list \<Rightarrow> string list" where
  "ListType_lpush v elements = v # elements"

definition ListType_rpush :: "string \<Rightarrow> string list \<Rightarrow> string list" where
  "ListType_rpush v elements = elements @ [v]"

text \<open>Both pops return the popped value and the remaining elements; on an empty list the
  value is the empty string.\<close>

definition ListType_lpop :: "string list \<Rightarrow> string \<times> string list" where
  "ListType_lpop elements = (if elements = [] then ([], elements) else (hd elements, tl elements))"

definition ListType_rpop :: "string list \<Rightarrow> string \<times> string list" where
  "ListType_rpop elements =
     (if elements = [] then ([], elements) else (last elements, butlast elements))"

text \<open>\<^verbatim>\<open>elements.size() + index\<close> is computed in \<^verbatim>\<open>size_t\<close> and stored in an
  \<^verbatim>\<open>int\<close>, which amounts to the sum cut to 32 bits.\<close>

definition ListType_lindex :: "string list \<Rightarrow> int \<Rightarrow> string" where
  "ListType_lindex elements index0 =
     (let index = (if index0 < 0 then int32 (int (length elements) + index0) else index0)
      in if index < 0 \<or> index \<ge> int32 (int (length elements)) then []
         else elements ! nat index)"

definition ListType_llen :: "string list \<Rightarrow> int" where
  "ListType_llen elements = int32 (int (length elements))"

definition ListType_lrange :: "string list \<Rightarrow> int \<Rightarrow> int \<Rightarrow> string list" where
  "ListType_lrange elements start0 end0 =
     (if elements = [] then []
      else let start1 = (if start0 < 0 then int32 (int (length elements) + start0) else start0);
               end1 = (if end0 < 0 then int32 (int (length elements) + end0) else end0);
               start = max 0 start1;
               end = min (int32 (int (length elements)) - 1) end1
           in if start > end then []
              else take (nat (end + 1) - nat start) (drop (nat start) elements))"

definition ListType_serialize :: "string list \<Rightarrow> string" where
  "ListType_serialize elements =
     foldl (\<lambda>result element. result @ to_string (length element) @ '':'' @ element @ '','')
       ''L'' elements"

text \<open>The loop of \<^verbatim>\<open>ListType::deserialize\<close>. \<^verbatim>\<open>std::stoi\<close> may throw, and with a
  negative length \<open>pos\<close> can move backwards, so the loop need not end.\<close>

partial_function (option) ListType_deserialize_loop ::
  "string \<Rightarrow> nat \<Rightarrow> string list \<Rightarrow> (exn + string list) option" where
  "ListType_deserialize_loop data pos elements =
     (if pos < length data then
        (case str_find data CHR '':'' pos of
           None \<Rightarrow> Some (Inr elements)
         | Some colon_pos \<Rightarrow>
             (case stoi (substr data pos (colon_pos - pos)) of
                Inl e \<Rightarrow> Some (Inl e)
              | Inr len \<Rightarrow>
                  ListType_deserialize_loop data (size_t (int colon_pos + len + 2))
                    (elements @ [substr data (colon_pos + 1) (size_t len)])))
      else Some (Inr elements))"

declare ListType_deserialize_loop.simps [code]

definition ListType_deserialize :: "string \<Rightarrow> (exn + string list) option" where
  "ListType_deserialize data =
     (if data = [] \<or> data ! 0 \<noteq> CHR ''L'' then Some (Inr [])
      else ListType_deserialize_loop data 1 [])"

subsubsection \<open>SetType\<close>

definition SetType_sadd :: "string \<Rightarrow> string list \<Rightarrow> bool \<times> string list" where
  "SetType_sadd v elements = (if v \<in> set elements then (False, elements) else (True, elements @ [v]))"

definition SetType_sismember :: "string list \<Rightarrow> string \<Rightarrow> bool" where
  "SetType_sismember elements v = (v \<in> set elements)"

definition SetType_srem :: "string \<Rightarrow> string list \<Rightarrow> bool \<times> string list" where
  "SetType_srem v elements = (v \<in> set elements, removeAll v elements)"

definition SetType_scard :: "string list \<Rightarrow> int" where
  "SetType_scard elements = int32 (int (length elements))"

definition SetType_smembers :: "string list \<Rightarrow> string list" where
  "SetType_smembers elements = elements"

definition SetType_serialize :: "string list \<Rightarrow> string" where
  "SetType_serialize elements =
     foldl (\<lambda>result element. result @ to_string (length element) @ '':'' @ element @ '','')
       ''S'' elements"

partial_function (option) SetType_deserialize_loop ::
  "string \<Rightarrow> nat \<Rightarrow> string list \<Rightarrow> (exn + string list) option" where
  "SetType_deserialize_loop data pos elements =
     (if pos < length data then
        (case str_find data CHR '':'' pos of
           None \<Rightarrow> Some (Inr elements)
         | Some colon_pos \<Rightarrow>
             (case stoi (substr data pos (colon_pos - pos)) of
                Inl e \<Rightarrow> Some (Inl e)
              | Inr len \<Rightarrow>
                  SetType_deserialize_loop data (size_t (int colon_pos + len + 2))
                    (snd (SetType_sadd (substr data (colon_pos + 1) (size_t len)) elements))))
      else Some (Inr elements))"

declare SetType_deserialize_loop.simps [code]

definition SetType_deserialize :: "string \<Rightarrow> (exn + string list) option" where
  "SetType_deserialize data =
     (if data = [] \<or> data ! 0 \<noteq> CHR ''S'' then Some (Inr [])
      else SetType_deserialize_loop data 1 [])"

subsubsection \<open>HashType\<close>

definition HashType_hset ::
  "string \<Rightarrow> string \<Rightarrow> (string \<times> string) list \<Rightarrow> bool \<times> (string \<times> string) list" where
  "HashType_hset field v fields = (map_of fields field = None, AList.update field v fields)"

definition HashType_hget :: "(string \<times> string) list \<Rightarrow> string \<Rightarrow> string" where
  "HashType_hget fields field = (case map_of fields field of Some v \<Rightarrow> v | None \<Rightarrow> [])"

definition HashType_hexists :: "(string \<times> string) list \<Rightarrow> string \<Rightarrow> bool" where
  "HashType_hexists fields field = (map_of fields field \<noteq> None)"

definition HashType_hdel ::
  "string \<Rightarrow> (string \<times> string) list \<Rightarrow> bool \<times> (string \<times> string) list" where
  "HashType_hdel field fields = (map_of fields field \<noteq> None, AList.delete field fields)"

definition HashType_hlen :: "(string \<times> string) list \<Rightarrow> int" where
  "HashType_hlen fields = int32 (int (length fields))"

definition HashType_hkeys :: "(string \<times> string) list \<Rightarrow> string list" where
  "HashType_hkeys fields = map fst fields"

definition HashType_hvals :: "(string \<times> string) list \<Rightarrow> string list" where
  "HashType_hvals fields = map snd fields"

definition HashType_hgetall :: "(string \<times> string) list \<Rightarrow> (string \<times> string) list" where
  "HashType_hgetall fields = fields"

definition HashType_serialize :: "(string \<times> string) list \<Rightarrow> string" where
  "HashType_serialize fields =
     foldl (\<lambda>result (field, v). result @ to_string (length field) @ '':'' @ field @ '':'' @
                                 to_string (length v) @ '':'' @ v @ '','')
       ''H'' fields"

text \<open>The loop of \<^verbatim>\<open>HashType::deserialize\<close>; \<open>vpos\<close> is the position
  \<^verbatim>\<open>colon_pos1 + field_len + 1\<close> from which the second colon is searched and the
  length of the value is read.\<close>

partial_function (option) HashType_deserialize_loop ::
  "string \<Rightarrow> nat \<Rightarrow> (string \<times> string) list \<Rightarrow> (exn + (string \<times> string) list) option" where
  "HashType_deserialize_loop data pos fields =
     (if pos < length data then
        (case str_find data CHR '':'' pos of
           None \<Rightarrow> Some (Inr fields)
         | Some colon_pos1 \<Rightarrow>
             (case stoi (substr data pos (colon_pos1 - pos)) of
                Inl e \<Rightarrow> Some (Inl e)
              | Inr field_len \<Rightarrow>
                  (let field = substr data (colon_pos1 + 1) (size_t field_len);
                       vpos = size_t (int colon_pos1 + field_len + 1)
                   in case str_find data CHR '':'' vpos of
                        None \<Rightarrow> Some (Inr fields)
                      | Some colon_pos2 \<Rightarrow>
                          (case stoi (substr data vpos (size_t (int colon_pos2 - int vpos))) of
                             Inl e \<Rightarrow> Some (Inl e)
                           | Inr value_len \<Rightarrow>
                               HashType_deserialize_loop data
                                 (size_t (int colon_pos2 + value_len + 2))
                                 (AList.update field (substr data (colon_pos2 + 1) (size_t value_len))
                                    fields)))))
      else Some (Inr fields))"

declare HashType_deserialize_loop.simps [code]

definition HashType_deserialize :: "string \<Rightarrow> (exn + (string \<times> string) list) option" where
  "HashType_deserialize data =
     (if data = [] \<or> data ! 0 \<noteq> CHR ''H'' then Some (Inr [])
      else HashType_deserialize_loop data 1 [])"

fun serialize :: "DataType \<Rightarrow> string" where
  "serialize (StringType v) = v"
| "serialize (ListType es) = ListType_serialize es"
| "serialize (SetType es) = SetType_serialize es"
| "serialize (HashType fs) = HashType_serialize fs"

subsection \<open>LRUCache\<close>

text \<open>The list \<open>cache\<close> has the most recently used key at its head. The member
  \<^verbatim>\<open>map\<close> holds, for each key of the list, the iterator to its node, so
  \<^verbatim>\<open>map.find(key) != map.end()\<close> is membership in the list.\<close>

record LRUCache =
  cache :: "string list"
  max_size :: nat

definition LRUCache_access :: "string \<Rightarrow> LRUCache \<Rightarrow> LRUCache" where
  "LRUCache_access key c =
     (let l1 = (if key \<in> set (cache c) then remove1 key (cache c) else cache c);
          l2 = key # l1
      in if length l2 > max_size c then c\<lparr>cache := butlast l2\<rparr> else c\<lparr>cache := l2\<rparr>)"

definition LRUCache_contains :: "LRUCache \<Rightarrow> string \<Rightarrow> bool" where
  "LRUCache_contains c key = (key \<in> set (cache c))"

definition LRUCache_remove :: "string \<Rightarrow> LRUCache \<Rightarrow> LRUCache" where
  "LRUCache_remove key c = (if key \<in> set (cache c) then c\<lparr>cache := remove1 key (cache c)\<rparr> else c)"

definition LRUCache_get_oldest :: "LRUCache \<Rightarrow> exn + string" where
  "LRUCache_get_oldest c =
     (if cache c = [] then Inl (runtime_error ''Cache is empty'') else Inr (last (cache c)))"

definition LRUCache_size :: "LRUCache \<Rightarrow> nat" where
  "LRUCache_size c = length (cache c)"

subsection \<open>BloomFilter\<close>

text \<open>The bitset is the set of the indices of its set bits. \<^verbatim>\<open>std::hash\<close> is the
  parameter \<open>hasher\<close> of every function that reaches the filter.\<close>

definition BloomFilter_hash :: "(string \<Rightarrow> nat) \<Rightarrow> string \<Rightarrow> nat" where
  "BloomFilter_hash hasher key = hasher key mod BLOOM_FILTER_SIZE"

definition BloomFilter_add :: "(string \<Rightarrow> nat) \<Rightarrow> string \<Rightarrow> nat set \<Rightarrow> nat set" where
  "BloomFilter_add hasher key bits = insert (BloomFilter_hash hasher key) bits"

definition BloomFilter_contains :: "(string \<Rightarrow> nat) \<Rightarrow> nat set \<Rightarrow> string \<Rightarrow> bool" where
  "BloomFilter_contains hasher bits key = (BloomFilter_hash hasher key \<in> bits)"

subsection \<open>BlinkDB\<close>

text \<open>The member \<^verbatim>\<open>cache\<close> of the class is the field \<open>lru_cache\<close>. In the store,
  \<^verbatim>\<open>store.find(key)\<close> is \<open>map_of\<close>, \<^verbatim>\<open>store[key] = v\<close> is \<open>AList.update\<close> and
  \<^verbatim>\<open>store.erase(key)\<close> is \<open>AList.delete\<close>. Every operation takes the database and
  returns it with its result. \<open>touch\<close> is the call \<^verbatim>\<open>cache.access(key)\<close> and
  \<open>erase_key\<close> the pair \<^verbatim>\<open>store.erase(key); cache.remove(key);\<close>.\<close>

record BlinkDB =
  store :: "(string \<times> DataType) list"
  lru_cache :: LRUCache
  bloom_filter :: "nat set"

definition BlinkDB_empty :: BlinkDB where
  "BlinkDB_empty = \<lparr>store = [], lru_cache = \<lparr>cache = [], max_size = CACHE_SIZE\<rparr>, bloom_filter = {}\<rparr>"

definition touch :: "string \<Rightarrow> BlinkDB \<Rightarrow> BlinkDB" where
  "touch key db = db\<lparr>lru_cache := LRUCache_access key (lru_cache db)\<rparr>"

definition erase_key :: "string \<Rightarrow> BlinkDB \<Rightarrow> BlinkDB" where
  "erase_key key db =
     db\<lparr>store := AList.delete key (store db), lru_cache := LRUCache_remove key (lru_cache db)\<rparr>"

text \<open>\<^verbatim>\<open>get_oldest\<close> throws on an empty list only, which the test of the size excludes.\<close>

definition evict_if_needed :: "BlinkDB \<Rightarrow> BlinkDB" where
  "evict_if_needed db =
     (if LRUCache_size (lru_cache db) > CACHE_SIZE then
        (case LRUCache_get_oldest (lru_cache db) of
           Inl e \<Rightarrow> db
         | Inr oldest_key \<Rightarrow>
             db\<lparr>lru_cache := LRUCache_remove oldest_key (lru_cache db),
                store := AList.delete oldest_key (store db)\<rparr>)
      else db)"

definition BlinkDB_set :: "(string \<Rightarrow> nat) \<Rightarrow> BlinkDB \<Rightarrow> string \<Rightarrow> string \<Rightarrow> BlinkDB" where
  "BlinkDB_set hasher db key v =
     (let db1 = db\<lparr>store := AList.update key (StringType v) (store db)\<rparr>;
          db2 = touch key db1;
          db3 = evict_if_needed db2
      in db3\<lparr>bloom_filter := BloomFilter_add hasher key (bloom_filter db3)\<rparr>)"

definition BlinkDB_get :: "(string \<Rightarrow> nat) \<Rightarrow> BlinkDB \<Rightarrow> string \<Rightarrow> BlinkDB \<times> string" where
  "BlinkDB_get hasher db key =
     (if \<not> BloomFilter_contains hasher (bloom_filter db) key \<or> map_of (store db) key = None
      then (db, ''NULL'')
      else let db1 = touch key db
           in case map_of (store db1) key of
                Some (StringType v) \<Rightarrow> (db1, v)
              | _ \<Rightarrow> (db1, WRONGTYPE))"

definition BlinkDB_del :: "BlinkDB \<Rightarrow> string \<Rightarrow> BlinkDB" where
  "BlinkDB_del db key =
     (let db1 = db\<lparr>store := AList.delete key (store db)\<rparr>
      in db1\<lparr>lru_cache := LRUCache_remove key (lru_cache db1)\<rparr>)"

definition BlinkDB_type :: "(string \<Rightarrow> nat) \<Rightarrow> BlinkDB \<Rightarrow> string \<Rightarrow> string" where
  "BlinkDB_type hasher db key =
     (if \<not> BloomFilter_contains hasher (bloom_filter db) key \<or> map_of (store db) key = None
      then ''none''
      else case map_of (store db) key of
             Some (StringType v) \<Rightarrow> ''string''
           | Some (ListType es) \<Rightarrow> ''list''
           | Some (SetType es) \<Rightarrow> ''set''
           | Some (HashType fs) \<Rightarrow> ''hash''
           | None \<Rightarrow> ''none'')"

text \<open>The encodings of an array that the database builds itself.\<close>

definition bulk :: "string \<Rightarrow> string" where
  "bulk item = ''$'' @ to_string (length item) @ CRLF @ item @ CRLF"

definition array :: "string list \<Rightarrow> string" where
  "array items = ''*'' @ to_string (length items) @ CRLF @ concat (map bulk items)"

subsubsection \<open>List operations\<close>

text \<open>In the operations that follow a \<open>create_..._if_needed\<close>, the key holds a value of
  the wanted kind once the creation has answered true; the last case of their
  \<open>case\<close> is there for totality only.\<close>

definition create_list_if_needed :: "(string \<Rightarrow> nat) \<Rightarrow> BlinkDB \<Rightarrow> string \<Rightarrow> bool \<times> BlinkDB" where
  "create_list_if_needed hasher db key =
     (case map_of (store db) key of
        None \<Rightarrow> (True, db\<lparr>store := AList.update key (ListType []) (store db),
                          bloom_filter := BloomFilter_add hasher key (bloom_filter db)\<rparr>)
      | Some v \<Rightarrow> (if get_type v \<noteq> LIST then (False, db) else (True, db)))"

definition BlinkDB_lpush ::
  "(string \<Rightarrow> nat) \<Rightarrow> BlinkDB \<Rightarrow> string \<Rightarrow> string \<Rightarrow> BlinkDB \<times> string" where
  "BlinkDB_lpush hasher db key v =
     (case create_list_if_needed hasher db key of
        (False, db1) \<Rightarrow> (db1, WRONGTYPE)
      | (True, db1) \<Rightarrow>
          (case map_of (store db1) key of
             Some (ListType elements) \<Rightarrow>
               (let list = ListType_lpush v elements;
                    db2 = db1\<lparr>store := AList.update key (ListType list) (store db1)\<rparr>;
                    db3 = touch key db2;
                    db4 = evict_if_needed db3
                in (db4, to_string_int (ListType_llen list)))
           | _ \<Rightarrow> (db1, WRONGTYPE)))"

definition BlinkDB_rpush ::
  "(string \<Rightarrow> nat) \<Rightarrow> BlinkDB \<Rightarrow> string \<Rightarrow> string \<Rightarrow> BlinkDB \<times> string" where
  "BlinkDB_rpush hasher db key v =
     (case create_list_if_needed hasher db key of
        (False, db1) \<Rightarrow> (db1, WRONGTYPE)
      | (True, db1) \<Rightarrow>
          (case map_of (store db1) key of
             Some (ListType elements) \<Rightarrow>
               (let list = ListType_rpush v elements;
                    db2 = db1\<lparr>store := AList.update key (ListType list) (store db1)\<rparr>;
                    db3 = touch key db2;
                    db4 = evict_if_needed db3
                in (db4, to_string_int (ListType_llen list)))
           | _ \<Rightarrow> (db1, WRONGTYPE)))"

definition BlinkDB_lpop :: "BlinkDB \<Rightarrow> string \<Rightarrow> BlinkDB \<times> string" where
  "BlinkDB_lpop db key =
     (case map_of (store db) key of
        None \<Rightarrow> (db, ''NULL'')
      | Some (ListType elements) \<Rightarrow>
          (let (result, list) = ListType_lpop elements;
               db1 = db\<lparr>store := AList.update key (ListType list) (store db)\<rparr>;
               db2 = touch key db1;
               db3 = (if ListType_llen list = 0 then erase_key key db2 else db2)
           in (db3, if result = [] then ''NULL'' else result))
      | Some _ \<Rightarrow> (db, WRONGTYPE))"

definition BlinkDB_rpop :: "BlinkDB \<Rightarrow> string \<Rightarrow> BlinkDB \<times> string" where
  "BlinkDB_rpop db key =
     (case map_of (store db) key of
        None \<Rightarrow> (db, ''NULL'')
      | Some (ListType elements) \<Rightarrow>
          (let (result, list) = ListType_rpop elements;
               db1 = db\<lparr>store := AList.update key (ListType list) (store db)\<rparr>;
               db2 = touch key db1;
               db3 = (if ListType_llen list = 0 then erase_key key db2 else db2)
           in (db3, if result = [] then ''NULL'' else result))
      | Some _ \<Rightarrow> (db, WRONGTYPE))"

definition BlinkDB_lindex :: "BlinkDB \<Rightarrow> string \<Rightarrow> int \<Rightarrow> BlinkDB \<times> string" where
  "BlinkDB_lindex db key index =
     (case map_of (store db) key of
        None \<Rightarrow> (db, ''NULL'')
      | Some (ListType elements) \<Rightarrow>
          (let result = ListType_lindex elements index
           in (touch key db, if result = [] then ''NULL'' else result))
      | Some _ \<Rightarrow> (db, WRONGTYPE))"

definition BlinkDB_llen :: "BlinkDB \<Rightarrow> string \<Rightarrow> BlinkDB \<times> string" where
  "BlinkDB_llen db key =
     (case map_of (store db) key of
        None \<Rightarrow> (db, ''0'')
      | Some (ListType elements) \<Rightarrow> (touch key db, to_string_int (ListType_llen elements))
      | Some _ \<Rightarrow> (db, WRONGTYPE))"

definition BlinkDB_lrange :: "BlinkDB \<Rightarrow> string \<Rightarrow> int \<Rightarrow> int \<Rightarrow> BlinkDB \<times> string" where
  "BlinkDB_lrange db key start end =
     (case map_of (store db) key of
        None \<Rightarrow> (db, ''*0'' @ CRLF)
      | Some (ListType elements) \<Rightarrow>
          (let results = ListType_lrange elements start end
           in (touch key db, array results))
      | Some _ \<Rightarrow> (db, WRONGTYPE))"

subsubsection \<open>Set operations\<close>

definition create_set_if_needed :: "(string \<Rightarrow> nat) \<Rightarrow> BlinkDB \<Rightarrow> string \<Rightarrow> bool \<times> BlinkDB" where
  "create_set_if_needed hasher db key =
     (case map_of (store db) key of
        None \<Rightarrow> (True, db\<lparr>store := AList.update key (SetType []) (store db),
                          bloom_filter := BloomFilter_add hasher key (bloom_filter db)\<rparr>)
      | Some v \<Rightarrow> (if get_type v \<noteq> SET then (False, db) else (True, db)))"

definition BlinkDB_sadd ::
  "(string \<Rightarrow> nat) \<Rightarrow> BlinkDB \<Rightarrow> string \<Rightarrow> string \<Rightarrow> BlinkDB \<times> string" where
  "BlinkDB_sadd hasher db key v =
     (case create_set_if_needed hasher db key of
        (False, db1) \<Rightarrow> (db1, WRONGTYPE)
      | (True, db1) \<Rightarrow>
          (case map_of (store db1) key of
             Some (SetType elements) \<Rightarrow>
               (let (added, set1) = SetType_sadd v elements;
                    db2 = db1\<lparr>store := AList.update key (SetType set1) (store db1)\<rparr>;
                    db3 = touch key db2;
                    db4 = evict_if_needed db3
                in (db4, if added then ''1'' else ''0''))
           | _ \<Rightarrow> (db1, WRONGTYPE)))"

definition BlinkDB_sismember :: "BlinkDB \<Rightarrow> string \<Rightarrow> string \<Rightarrow> BlinkDB \<times> string" where
  "BlinkDB_sismember db key v =
     (case map_of (store db) key of
        None \<Rightarrow> (db, ''0'')
      | Some (SetType elements) \<Rightarrow>
          (touch key db, if SetType_sismember elements v then ''1'' else ''0'')
      | Some _ \<Rightarrow> (db, WRONGTYPE))"

definition BlinkDB_srem :: "BlinkDB \<Rightarrow> string \<Rightarrow> string \<Rightarrow> BlinkDB \<times> string" where
  "BlinkDB_srem db key v =
     (case map_of (store db) key of
        None \<Rightarrow> (db, ''0'')
      | Some (SetType elements) \<Rightarrow>
          (let (removed, set1) = SetType_srem v elements;
               db1 = db\<lparr>store := AList.update key (SetType set1) (store db)\<rparr>;
               db2 = touch key db1;
               db3 = (if SetType_scard set1 = 0 then erase_key key db2 else db2)
           in (db3, if removed then ''1'' else ''0''))
      | Some _ \<Rightarrow> (db, WRONGTYPE))"

definition BlinkDB_scard :: "BlinkDB \<Rightarrow> string \<Rightarrow> BlinkDB \<times> string" where
  "BlinkDB_scard db key =
     (case map_of (store db) key of
        None \<Rightarrow> (db, ''0'')
      | Some (SetType elements) \<Rightarrow> (touch key db, to_string_int (SetType_scard elements))
      | Some _ \<Rightarrow> (db, WRONGTYPE))"

definition BlinkDB_smembers :: "BlinkDB \<Rightarrow> string \<Rightarrow> BlinkDB \<times> string" where
  "BlinkDB_smembers db key =
     (case map_of (store db) key of
        None \<Rightarrow> (db, ''*0'' @ CRLF)
      | Some (SetType elements) \<Rightarrow> (touch key db, array (SetType_smembers elements))
      | Some _ \<Rightarrow> (db, WRONGTYPE))"

subsubsection \<open>Hash operations\<close>

definition create_hash_if_needed :: "(string \<Rightarrow> nat) \<Rightarrow> BlinkDB \<Rightarrow> string \<Rightarrow> bool \<times> BlinkDB" where
  "create_hash_if_needed hasher db key =
     (case map_of (store db) key of
        None \<Rightarrow> (True, db\<lparr>store := AList.update key (HashType []) (store db),
                          bloom_filter := BloomFilter_add hasher key (bloom_filter db)\<rparr>)
      | Some v \<Rightarrow> (if get_type v \<noteq> HASH then (False, db) else (True, db)))"

definition BlinkDB_hset ::
  "(string \<Rightarrow> nat) \<Rightarrow> BlinkDB \<Rightarrow> string \<Rightarrow> string \<Rightarrow> string \<Rightarrow> BlinkDB \<times> string" where
  "BlinkDB_hset hasher db key field v =
     (case create_hash_if_needed hasher db key of
        (False, db1) \<Rightarrow> (db1, WRONGTYPE)
      | (True, db1) \<Rightarrow>
          (case map_of (store db1) key of
             Some (HashType hfields) \<Rightarrow>
               (let (added, hash1) = HashType_hset field v hfields;
                    db2 = db1\<lparr>store := AList.update key (HashType hash1) (store db1)\<rparr>;
                    db3 = touch key db2;
                    db4 = evict_if_needed db3
                in (db4, if added then ''1'' else ''0''))
           | _ \<Rightarrow> (db1, WRONGTYPE)))"

definition BlinkDB_hget :: "BlinkDB \<Rightarrow> string \<Rightarrow> string \<Rightarrow> BlinkDB \<times> string" where
  "BlinkDB_hget db key field =
     (case map_of (store db) key of
        None \<Rightarrow> (db, ''NULL'')
      | Some (HashType hfields) \<Rightarrow>
          (let result = HashType_hget hfields field
           in (touch key db, if result = [] then ''NULL'' else result))
      | Some _ \<Rightarrow> (db, WRONGTYPE))"

definition BlinkDB_hexists :: "BlinkDB \<Rightarrow> string \<Rightarrow> string \<Rightarrow> BlinkDB \<times> string" where
  "BlinkDB_hexists db key field =
     (case map_of (store db) key of
        None \<Rightarrow> (db, ''0'')
      | Some (HashType hfields) \<Rightarrow>
          (touch key db, if HashType_hexists hfields field then ''1'' else ''0'')
      | Some _ \<Rightarrow> (db, WRONGTYPE))"

definition BlinkDB_hdel :: "BlinkDB \<Rightarrow> string \<Rightarrow> string \<Rightarrow> BlinkDB \<times> string" where
  "BlinkDB_hdel db key field =
     (case map_of (store db) key of
        None \<Rightarrow> (db, ''0'')
      | Some (HashType hfields) \<Rightarrow>
          (let (removed, hash1) = HashType_hdel field hfields;
               db1 = db\<lparr>store := AList.update key (HashType hash1) (store db)\<rparr>;
               db2 = touch key db1;
               db3 = (if HashType_hlen hash1 = 0 then erase_key key db2 else db2)
           in (db3, if removed then ''1'' else ''0''))
      | Some _ \<Rightarrow> (db, WRONGTYPE))"

definition BlinkDB_hlen :: "BlinkDB \<Rightarrow> string \<Rightarrow> BlinkDB \<times> string" where
  "BlinkDB_hlen db key =
     (case map_of (store db) key of
        None \<Rightarrow> (db, ''0'')
      | Some (HashType hfields) \<Rightarrow> (touch key db, to_string_int (HashType_hlen hfields))
      | Some _ \<Rightarrow> (db, WRONGTYPE))"

definition BlinkDB_hkeys :: "BlinkDB \<Rightarrow> string \<Rightarrow> BlinkDB \<times> string" where
  "BlinkDB_hkeys db key =
     (case map_of (store db) key of
        None \<Rightarrow> (db, ''*0'' @ CRLF)
      | Some (HashType hfields) \<Rightarrow> (touch key db, array (HashType_hkeys hfields))
      | Some _ \<Rightarrow> (db, WRONGTYPE))"

definition BlinkDB_hvals :: "BlinkDB \<Rightarrow> string \<Rightarrow> BlinkDB \<times> string" where
  "BlinkDB_hvals db key =
     (case map_of (store db) key of
        None \<Rightarrow> (db, ''*0'' @ CRLF)
      | Some (HashType hfields) \<Rightarrow> (touch key db, array (HashType_hvals hfields))
      | Some _ \<Rightarrow> (db, WRONGTYPE))"

definition BlinkDB_hgetall :: "BlinkDB \<Rightarrow> string \<Rightarrow> BlinkDB \<times> string" where
  "BlinkDB_hgetall db key =
     (case map_of (store db) key of
        None \<Rightarrow> (db, ''*0'' @ CRLF)
      | Some (HashType hfields) \<Rightarrow>
          (let fs = HashType_hgetall hfields
           in (touch key db,
               ''*'' @ to_string (length fs * 2) @ CRLF @
               concat (map (\<lambda>(field, v). bulk field @ bulk v) fs)))
      | Some _ \<Rightarrow> (db, WRONGTYPE))"

subsubsection \<open>Persistence\<close>

text \<open>The file is the string of its bytes; \<open>None\<close> is a file that cannot be opened.\<close>

fun type_char_of :: "DataType \<Rightarrow> char" where
  "type_char_of (StringType v) = CHR ''S''"
| "type_char_of (ListType es) = CHR ''L''"
| "type_char_of (SetType es) = CHR ''E''"
| "type_char_of (HashType fs) = CHR ''H''"

definition save_to_disk :: "BlinkDB \<Rightarrow> string" where
  "save_to_disk db =
     concat (map (\<lambda>(key, v). type_char_of v # '' '' @ key @ '' '' @ serialize v @ [CHR 0x0A])
               (store db))"

text \<open>\<^verbatim>\<open>std::getline\<close> until the end of the file.\<close>

function getlines :: "string \<Rightarrow> string list" where
  "getlines s =
     (if s = [] then []
      else takeWhile (\<lambda>c. c \<noteq> CHR 0x0A) s #
           (case dropWhile (\<lambda>c. c \<noteq> CHR 0x0A) s of [] \<Rightarrow> [] | nl # rest \<Rightarrow> getlines rest))"
  by pat_completeness auto
termination
proof (relation "measure length")
  fix s nl rest
  assume "dropWhile (\<lambda>c. c \<noteq> CHR 0x0A) s = nl # rest"
  then have "length (nl # rest) \<le> length s"
    by (metis length_dropWhile_le)
  then show "(rest, s) \<in> measure length" by simp
qed simp

declare getlines.simps [simp del]

definition load_insert :: "(string \<Rightarrow> nat) \<Rightarrow> BlinkDB \<Rightarrow> string \<Rightarrow> DataType \<Rightarrow> BlinkDB" where
  "load_insert hasher db key v =
     (let db1 = db\<lparr>store := AList.update key v (store db)\<rparr>;
          db2 = touch key db1
      in db2\<lparr>bloom_filter := BloomFilter_add hasher key (bloom_filter db2)\<rparr>)"

text \<open>One turn of the loop over the lines. \<^verbatim>\<open>second_space\<close> is computed before
  \<^verbatim>\<open>first_space\<close> is tested, and the line is left as soon as one of them is
  \<^verbatim>\<open>npos\<close>. An exception of a \<open>deserialize\<close> is not caught here.\<close>

definition load_line :: "(string \<Rightarrow> nat) \<Rightarrow> BlinkDB \<Rightarrow> string \<Rightarrow> (exn + BlinkDB) option" where
  "load_line hasher db line =
     (if line = [] \<or> length line < 3 then Some (Inr db)
      else
        let type_char = line ! 0 in
        case str_find line CHR '' '' 0 of
          None \<Rightarrow> Some (Inr db)
        | Some first_space \<Rightarrow>
            (case str_find line CHR '' '' (first_space + 1) of
               None \<Rightarrow> Some (Inr db)
             | Some second_space \<Rightarrow>
                 (let key = substr line (first_space + 1) (second_space - first_space - 1);
                      data = drop (second_space + 1) line
                  in if type_char = CHR ''S'' then
                       Some (Inr (load_insert hasher db key (StringType data)))
                     else if type_char = CHR ''L'' then
                       (case ListType_deserialize data of
                          None \<Rightarrow> None
                        | Some (Inl e) \<Rightarrow> Some (Inl e)
                        | Some (Inr es) \<Rightarrow> Some (Inr (load_insert hasher db key (ListType es))))
                     else if type_char = CHR ''E'' then
                       (case SetType_deserialize data of
                          None \<Rightarrow> None
                        | Some (Inl e) \<Rightarrow> Some (Inl e)
                        | Some (Inr es) \<Rightarrow> Some (Inr (load_insert hasher db key (SetType es))))
                     else if type_char = CHR ''H'' then
                       (case HashType_deserialize data of
                          None \<Rightarrow> None
                        | Some (Inl e) \<Rightarrow> Some (Inl e)
                        | Some (Inr fs) \<Rightarrow> Some (Inr (load_insert hasher db key (HashType fs))))
                     else Some (Inr db))))"

fun load_lines :: "(string \<Rightarrow> nat) \<Rightarrow> BlinkDB \<Rightarrow> string list \<Rightarrow> (exn + BlinkDB) option" where
  "load_lines hasher db [] = Some (Inr db)"
| "load_lines hasher db (line # rest) =
     (case load_line hasher db line of
        None \<Rightarrow> None
      | Some (Inl e) \<Rightarrow> Some (Inl e)
      | Some (Inr db1) \<Rightarrow> load_lines hasher db1 rest)"

definition load_from_disk :: "(string \<Rightarrow> nat) \<Rightarrow> BlinkDB \<Rightarrow> string option \<Rightarrow> (exn + BlinkDB) option" where
  "load_from_disk hasher db file =
     (case file of None \<Rightarrow> Some (Inr db) | Some content \<Rightarrow> load_lines hasher db (getlines content))"

text \<open>The constructor: an empty database that loads the file. Its result is \<open>Some (Inr db)\<close>
  when the database is built, \<open>Some (Inl e)\<close> when the exception \<open>e\<close> leaves the
  constructor, which \<^verbatim>\<open>main\<close> does not catch, and \<open>None\<close> when loading never ends.\<close>

definition BlinkDB_new :: "(string \<Rightarrow> nat) \<Rightarrow> string option \<Rightarrow> (exn + BlinkDB) option" where
  "BlinkDB_new hasher file = load_from_disk hasher BlinkDB_empty file"

subsection \<open>CommandHandler\<close>

text \<open>The three ways in which \<^verbatim>\<open>process_command\<close> turns the string of an operation
  into a response; each branch of the source writes one of them out. All of them test the
  first nine characters of the result.\<close>

definition reply_bulk :: "string \<Rightarrow> string" where
  "reply_bulk result =
     (if result = ''NULL'' then ''$-1'' @ CRLF
      else if substr result 0 9 = ''WRONGTYPE'' then ''-'' @ result @ CRLF
      else ''$'' @ to_string (length result) @ CRLF @ result @ CRLF)"

definition reply_integer :: "string \<Rightarrow> string" where
  "reply_integer result =
     (if substr result 0 9 = ''WRONGTYPE'' then ''-'' @ result @ CRLF
      else '':'' @ result @ CRLF)"

definition reply_array :: "string \<Rightarrow> string" where
  "reply_array result =
     (if substr result 0 9 = ''WRONGTYPE'' then ''-'' @ result @ CRLF else result)"

text \<open>The handler of \<^verbatim>\<open>catch (const std::exception& e)\<close>.\<close>

definition reply_exception :: "exn \<Rightarrow> string" where
  "reply_exception e = ''-ERR '' @ what e @ CRLF"

text \<open>The response of the last branch, which names the command between single quotes.\<close>

definition reply_unknown :: "string \<Rightarrow> string" where
  "reply_unknown cmd = ''-ERR unknown command '' @ [CHR 0x27] @ cmd @ [CHR 0x27] @ CRLF"

text \<open>The chain of tests on the lowercased name \<open>cmd\<close> and the number of tokens.\<close>

definition dispatch ::
  "(string \<Rightarrow> nat) \<Rightarrow> BlinkDB \<Rightarrow> string \<Rightarrow> string list \<Rightarrow> BlinkDB \<times> string" where
  "dispatch hasher db cmd command_parts =
     (if cmd = ''set'' \<and> length command_parts \<ge> 3 then
        (BlinkDB_set hasher db (command_parts ! 1) (command_parts ! 2), ''+OK'' @ CRLF)
      else if cmd = ''get'' \<and> length command_parts \<ge> 2 then
        apsnd reply_bulk (BlinkDB_get hasher db (command_parts ! 1))
      else if cmd = ''del'' \<and> length command_parts \<ge> 2 then
        (BlinkDB_del db (command_parts ! 1), '':1'' @ CRLF)
      else if cmd = ''type'' \<and> length command_parts \<ge> 2 then
        (db, ''+'' @ BlinkDB_type hasher db (command_parts ! 1) @ CRLF)
      else if cmd = ''lpush'' \<and> length command_parts \<ge> 3 then
        apsnd reply_integer (BlinkDB_lpush hasher db (command_parts ! 1) (command_parts ! 2))
      else if cmd = ''rpush'' \<and> length command_parts \<ge> 3 then
        apsnd reply_integer (BlinkDB_rpush hasher db (command_parts ! 1) (command_parts ! 2))
      else if cmd = ''lpop'' \<and> length command_parts \<ge> 2 then
        apsnd reply_bulk (BlinkDB_lpop db (command_parts ! 1))
      else if cmd = ''rpop'' \<and> length command_parts \<ge> 2 then
        apsnd reply_bulk (BlinkDB_rpop db (command_parts ! 1))
      else if cmd = ''lindex'' \<and> length command_parts \<ge> 3 then
        (case stoi (command_parts ! 2) of
           Inl e \<Rightarrow> (db, reply_exception e)
         | Inr index \<Rightarrow> apsnd reply_bulk (BlinkDB_lindex db (command_parts ! 1) index))
      else if cmd = ''llen'' \<and> length command_parts \<ge> 2 then
        apsnd reply_integer (BlinkDB_llen db (command_parts ! 1))
      else if cmd = ''lrange'' \<and> length command_parts \<ge> 4 then
        (case stoi (command_parts ! 2) of
           Inl e \<Rightarrow> (db, reply_exception e)
         | Inr start \<Rightarrow>
             (case stoi (command_parts ! 3) of
                Inl e \<Rightarrow> (db, reply_exception e)
              | Inr end \<Rightarrow> apsnd reply_array (BlinkDB_lrange db (command_parts ! 1) start end)))
      else if cmd = ''sadd'' \<and> length command_parts \<ge> 3 then
        apsnd reply_integer (BlinkDB_sadd hasher db (command_parts ! 1) (command_parts ! 2))
      else if cmd = ''sismember'' \<and> length command_parts \<ge> 3 then
        apsnd reply_integer (BlinkDB_sismember db (command_parts ! 1) (command_parts ! 2))
      else if cmd = ''srem'' \<and> length command_parts \<ge> 3 then
        apsnd reply_integer (BlinkDB_srem db (command_parts ! 1) (command_parts ! 2))
      else if cmd = ''scard'' \<and> length command_parts \<ge> 2 then
        apsnd reply_integer (BlinkDB_scard db (command_parts ! 1))
      else if cmd = ''smembers'' \<and> length command_parts \<ge> 2 then
        apsnd reply_array (BlinkDB_smembers db (command_parts ! 1))
      else if cmd = ''hset'' \<and> length command_parts \<ge> 4 then
        apsnd reply_integer
          (BlinkDB_hset hasher db (command_parts ! 1) (command_parts ! 2) (command_parts ! 3))
      else if cmd = ''hget'' \<and> length command_parts \<ge> 3 then
        apsnd reply_bulk (BlinkDB_hget db (command_parts ! 1) (command_parts ! 2))
      else if cmd = ''hexists'' \<and> length command_parts \<ge> 3 then
        apsnd reply_integer (BlinkDB_hexists db (command_parts ! 1) (command_parts ! 2))
      else if cmd = ''hdel'' \<and> length command_parts \<ge> 3 then
        apsnd reply_integer (BlinkDB_hdel db (command_parts ! 1) (command_parts ! 2))
      else if cmd = ''hlen'' \<and> length command_parts \<ge> 2 then
        apsnd reply_integer (BlinkDB_hlen db (command_parts ! 1))
      else if cmd = ''hkeys'' \<and> length command_parts \<ge> 2 then
        apsnd reply_array (BlinkDB_hkeys db (command_parts ! 1))
      else if cmd = ''hvals'' \<and> length command_parts \<ge> 2 then
        apsnd reply_array (BlinkDB_hvals db (command_parts ! 1))
      else if cmd = ''hgetall'' \<and> length command_parts \<ge> 2 then
        apsnd reply_array (BlinkDB_hgetall db (command_parts ! 1))
      else if cmd = ''ping'' then (db, ''+PONG'' @ CRLF)
      else (db, reply_unknown cmd))"

definition process_command :: "(string \<Rightarrow> nat) \<Rightarrow> BlinkDB \<Rightarrow> string \<Rightarrow> BlinkDB \<times> string" where
  "process_command hasher db command_str =
     (let command_parts = tokenize command_str
      in if command_parts = [] then (db, ''-ERR empty command'' @ CRLF)
         else dispatch hasher db (map tolower (command_parts ! 0)) command_parts)"

text \<open>A client's session: the requests in order, each on the database the one before left.\<close>

fun process_commands ::
  "(string \<Rightarrow> nat) \<Rightarrow> BlinkDB \<Rightarrow> string list \<Rightarrow> BlinkDB \<times> string list" where
  "process_commands hasher db [] = (db, [])"
| "process_commands hasher db (c # cs) =
     (let (db1, r) = process_command hasher db c;
          (db2, rs) = process_commands hasher db1 cs
      in (db2, r # rs))"

subsection \<open>Predicates of the specification\<close>

text \<open>The states the program reaches keep the recency list free of duplicates and within
  its own bound, and keep the bit of every stored key set in the filter.\<close>

definition lru_ok :: "LRUCache \<Rightarrow> bool" where
  "lru_ok c \<longleftrightarrow> distinct (cache c) \<and> max_size c = CACHE_SIZE \<and> length (cache c) \<le> CACHE_SIZE"

definition bloom_ok :: "(string \<Rightarrow> nat) \<Rightarrow> BlinkDB \<Rightarrow> bool" where
  "bloom_ok hasher db \<longleftrightarrow>
     (\<forall>k \<in> fst ` set (store db). BloomFilter_contains hasher (bloom_filter db) k)"

definition BlinkDB_inv :: "(string \<Rightarrow> nat) \<Rightarrow> BlinkDB \<Rightarrow> bool" where
  "BlinkDB_inv hasher db \<longleftrightarrow> lru_ok (lru_cache db) \<and> bloom_ok hasher db"

text \<open>A token of a request: not empty and free of white space.\<close>

definition is_token :: "string \<Rightarrow> bool" where
  "is_token t \<longleftrightarrow> t \<noteq> [] \<and> (\<forall>c \<in> set t. \<not> isspace c)"

text \<open>No key is bound to a collection without elements.\<close>

fun is_empty_collection :: "DataType \<Rightarrow> bool" where
  "is_empty_collection (StringType v) = False"
| "is_empty_collection (ListType es) = (es = [])"
| "is_empty_collection (SetType es) = (es = [])"
| "is_empty_collection (HashType fs) = (fs = [])"

definition no_empty_collection :: "BlinkDB \<Rightarrow> bool" where
  "no_empty_collection db \<longleftrightarrow>
     (\<forall>k \<in> fst ` set (store db).
        case map_of (store db) k of Some v \<Rightarrow> \<not> is_empty_collection v | None \<Rightarrow> True)"

text \<open>A step from \<open>db\<close> to \<open>db'\<close> adds no empty collection when every key that \<open>db'\<close> binds
  to an empty collection was bound to that collection in \<open>db\<close> already.\<close>

definition adds_no_empty_collection :: "BlinkDB \<Rightarrow> BlinkDB \<Rightarrow> bool" where
  "adds_no_empty_collection db db' \<longleftrightarrow>
     (\<forall>k \<in> fst ` set (store db').
        case map_of (store db') k of
          Some v \<Rightarrow> is_empty_collection v \<longrightarrow> map_of (store db) k = Some v
        | None \<Rightarrow> True)"

text \<open>The names that \<^verbatim>\<open>process_command\<close> knows, each with the number of tokens its branch
  asks for.\<close>

definition command_table :: "(string \<times> nat) list" where
  "command_table =
     [(''set'', 3), (''get'', 2), (''del'', 2), (''type'', 2),
      (''lpush'', 3), (''rpush'', 3), (''lpop'', 2), (''rpop'', 2), (''lindex'', 3),
      (''llen'', 2), (''lrange'', 4),
      (''sadd'', 3), (''sismember'', 3), (''srem'', 3), (''scard'', 2), (''smembers'', 2),
      (''hset'', 4), (''hget'', 3), (''hexists'', 3), (''hdel'', 3), (''hlen'', 2),
      (''hkeys'', 2), (''hvals'', 2), (''hgetall'', 2), (''ping'', 1)]"

text \<open>The number of tokens a request needs; a name that is not known needs its own token
  only.\<close>

definition min_parts :: "string \<Rightarrow> nat" where
  "min_parts cmd = (case map_of command_table cmd of Some n \<Rightarrow> n | None \<Rightarrow> 1)"

text \<open>The range of \<^verbatim>\<open>LRANGE\<close> as the specification words it: negative indices count
  from the end, then both bounds are clamped into \<open>[0, len - 1]\<close>, and the result is
  empty when the start is beyond the end.\<close>

definition clamp_index :: "int \<Rightarrow> int \<Rightarrow> int" where
  "clamp_index len i = max 0 (min (len - 1) i)"

definition lrange_spec :: "string list \<Rightarrow> int \<Rightarrow> int \<Rightarrow> string list" where
  "lrange_spec elements start0 end0 =
     (let len = int (length elements);
          start = clamp_index len (if start0 < 0 then len + start0 else start0);
          end = clamp_index len (if end0 < 0 then len + end0 else end0)
      in if start > end then [] else take (nat (end - start + 1)) (drop (nat start) elements))"

text \<open>The kind of value that a command works on; \<open>SET\<close>, \<open>DEL\<close>, \<open>TYPE\<close> and
  \<open>PING\<close> work on every kind.\<close>

definition kind_table :: "(string \<times> ValueType) list" where
  "kind_table =
     [(''get'', STRING),
      (''lpush'', LIST), (''rpush'', LIST), (''lpop'', LIST), (''rpop'', LIST),
      (''lindex'', LIST), (''llen'', LIST), (''lrange'', LIST),
      (''sadd'', SET), (''sismember'', SET), (''srem'', SET), (''scard'', SET),
      (''smembers'', SET),
      (''hset'', HASH), (''hget'', HASH), (''hexists'', HASH), (''hdel'', HASH),
      (''hlen'', HASH), (''hkeys'', HASH), (''hvals'', HASH), (''hgetall'', HASH)]"

text \<open>A key that is gone: not in the store, not in the recency list, and of kind \<open>none\<close>
  for the request \<open>TYPE\<close>.\<close>

definition key_deleted :: "(string \<Rightarrow> nat) \<Rightarrow> BlinkDB \<Rightarrow> string \<Rightarrow> bool" where
  "key_deleted hasher db key \<longleftrightarrow>
     map_of (store db) key = None \<and> key \<notin> set (cache (lru_cache db)) \<and>
     snd (process_command hasher db (''TYPE '' @ key)) = ''+none'' @ CRLF"

section \<open>Properties\<close>

subsection \<open>The standard library\<close>

lemma tokenize_Nil: "tokenize [] = []"
  by (subst tokenize.simps) simp

lemma tokenize_space: "isspace c \<Longrightarrow> tokenize (c # s) = tokenize s"
  by (subst tokenize.simps, subst (2) tokenize.simps) simp

lemma tokenize_token:
  assumes "is_token a" "isspace d"
  shows "tokenize (a @ d # rest) = a # tokenize rest"
proof -
  from assms(1) have ne: "a \<noteq> []" and ns: "\<forall>c\<in>set a. \<not> isspace c"
    by (simp_all add: is_token_def)
  from ne obtain x xs where a: "a = x # xs" by (cases a) auto
  have d: "dropWhile isspace (a @ d # rest) = a @ d # rest"
    using ns a by simp
  have t: "takeWhile (\<lambda>c. \<not> isspace c) (a @ d # rest) = a"
    using ns assms(2) by simp
  have t2: "dropWhile (\<lambda>c. \<not> isspace c) (a @ d # rest) = d # rest"
    using ns assms(2) by simp
  have "tokenize (a @ d # rest) = a # tokenize (d # rest)"
    by (subst tokenize.simps) (simp only: Let_def d t t2, simp)
  then show ?thesis
    by (simp only: tokenize_space [OF assms(2)])
qed

lemma tokenize_last:
  assumes "is_token a"
  shows "tokenize a = [a]"
proof -
  from assms(1) have ne: "a \<noteq> []" and ns: "\<forall>c\<in>set a. \<not> isspace c"
    by (simp_all add: is_token_def)
  from ne obtain x xs where a: "a = x # xs" by (cases a) auto
  have d: "dropWhile isspace a = a" using ns a by simp
  have t: "takeWhile (\<lambda>c. \<not> isspace c) a = a" using ns by simp
  have t2: "dropWhile (\<lambda>c. \<not> isspace c) a = []" using ns by simp
  show ?thesis
    by (subst tokenize.simps) (simp only: Let_def d t t2 tokenize_Nil, simp add: ne)
qed

lemma isspace_space [simp]: "isspace CHR '' ''"
  by (simp add: isspace_def)

lemma tokenize_2:
  "is_token a \<Longrightarrow> is_token b \<Longrightarrow> tokenize (a @ '' '' @ b) = [a, b]"
  by (simp add: tokenize_token tokenize_last)

lemma tokenize_3:
  "is_token a \<Longrightarrow> is_token b \<Longrightarrow> is_token c \<Longrightarrow> tokenize (a @ '' '' @ b @ '' '' @ c) = [a, b, c]"
  by (simp add: tokenize_token tokenize_last)

subsection \<open>The dispatch on the name of the command\<close>

lemma dispatch_simps:
  "dispatch h db ''set'' p = (if length p \<ge> 3 then (BlinkDB_set h db (p ! 1) (p ! 2), ''+OK'' @ CRLF) else (db, reply_unknown ''set''))"
  "dispatch h db ''get'' p = (if length p \<ge> 2 then apsnd reply_bulk (BlinkDB_get h db (p ! 1)) else (db, reply_unknown ''get''))"
  "dispatch h db ''del'' p = (if length p \<ge> 2 then (BlinkDB_del db (p ! 1), '':1'' @ CRLF) else (db, reply_unknown ''del''))"
  "dispatch h db ''type'' p = (if length p \<ge> 2 then (db, ''+'' @ BlinkDB_type h db (p ! 1) @ CRLF) else (db, reply_unknown ''type''))"
  "dispatch h db ''lpush'' p = (if length p \<ge> 3 then apsnd reply_integer (BlinkDB_lpush h db (p ! 1) (p ! 2)) else (db, reply_unknown ''lpush''))"
  "dispatch h db ''rpush'' p = (if length p \<ge> 3 then apsnd reply_integer (BlinkDB_rpush h db (p ! 1) (p ! 2)) else (db, reply_unknown ''rpush''))"
  "dispatch h db ''lpop'' p = (if length p \<ge> 2 then apsnd reply_bulk (BlinkDB_lpop db (p ! 1)) else (db, reply_unknown ''lpop''))"
  "dispatch h db ''rpop'' p = (if length p \<ge> 2 then apsnd reply_bulk (BlinkDB_rpop db (p ! 1)) else (db, reply_unknown ''rpop''))"
  "dispatch h db ''lindex'' p = (if length p \<ge> 3 then
        (case stoi (p ! 2) of Inl e \<Rightarrow> (db, reply_exception e)
         | Inr index \<Rightarrow> apsnd reply_bulk (BlinkDB_lindex db (p ! 1) index)) else (db, reply_unknown ''lindex''))"
  "dispatch h db ''llen'' p = (if length p \<ge> 2 then apsnd reply_integer (BlinkDB_llen db (p ! 1)) else (db, reply_unknown ''llen''))"
  "dispatch h db ''lrange'' p = (if length p \<ge> 4 then
        (case stoi (p ! 2) of Inl e \<Rightarrow> (db, reply_exception e)
         | Inr start \<Rightarrow> (case stoi (p ! 3) of Inl e \<Rightarrow> (db, reply_exception e)
              | Inr end \<Rightarrow> apsnd reply_array (BlinkDB_lrange db (p ! 1) start end))) else (db, reply_unknown ''lrange''))"
  "dispatch h db ''sadd'' p = (if length p \<ge> 3 then apsnd reply_integer (BlinkDB_sadd h db (p ! 1) (p ! 2)) else (db, reply_unknown ''sadd''))"
  "dispatch h db ''sismember'' p = (if length p \<ge> 3 then apsnd reply_integer (BlinkDB_sismember db (p ! 1) (p ! 2)) else (db, reply_unknown ''sismember''))"
  "dispatch h db ''srem'' p = (if length p \<ge> 3 then apsnd reply_integer (BlinkDB_srem db (p ! 1) (p ! 2)) else (db, reply_unknown ''srem''))"
  "dispatch h db ''scard'' p = (if length p \<ge> 2 then apsnd reply_integer (BlinkDB_scard db (p ! 1)) else (db, reply_unknown ''scard''))"
  "dispatch h db ''smembers'' p = (if length p \<ge> 2 then apsnd reply_array (BlinkDB_smembers db (p ! 1)) else (db, reply_unknown ''smembers''))"
  "dispatch h db ''hset'' p = (if length p \<ge> 4 then apsnd reply_integer (BlinkDB_hset h db (p ! 1) (p ! 2) (p ! 3)) else (db, reply_unknown ''hset''))"
  "dispatch h db ''hget'' p = (if length p \<ge> 3 then apsnd reply_bulk (BlinkDB_hget db (p ! 1) (p ! 2)) else (db, reply_unknown ''hget''))"
  "dispatch h db ''hexists'' p = (if length p \<ge> 3 then apsnd reply_integer (BlinkDB_hexists db (p ! 1) (p ! 2)) else (db, reply_unknown ''hexists''))"
  "dispatch h db ''hdel'' p = (if length p \<ge> 3 then apsnd reply_integer (BlinkDB_hdel db (p ! 1) (p ! 2)) else (db, reply_unknown ''hdel''))"
  "dispatch h db ''hlen'' p = (if length p \<ge> 2 then apsnd reply_integer (BlinkDB_hlen db (p ! 1)) else (db, reply_unknown ''hlen''))"
  "dispatch h db ''hkeys'' p = (if length p \<ge> 2 then apsnd reply_array (BlinkDB_hkeys db (p ! 1)) else (db, reply_unknown ''hkeys''))"
  "dispatch h db ''hvals'' p = (if length p \<ge> 2 then apsnd reply_array (BlinkDB_hvals db (p ! 1)) else (db, reply_unknown ''hvals''))"
  "dispatch h db ''hgetall'' p = (if length p \<ge> 2 then apsnd reply_array (BlinkDB_hgetall db (p ! 1)) else (db, reply_unknown ''hgetall''))"
  "dispatch h db ''ping'' p = (db, ''+PONG'' @ CRLF)"
  by (simp_all add: dispatch_def reply_unknown_def)

lemma command_table_cases:
  assumes "map_of command_table cmd = Some n"
  shows "(cmd, n) \<in> {(''set'', 3), (''get'', 2), (''del'', 2), (''type'', 2),
      (''lpush'', 3), (''rpush'', 3), (''lpop'', 2), (''rpop'', 2), (''lindex'', 3),
      (''llen'', 2), (''lrange'', 4),
      (''sadd'', 3), (''sismember'', 3), (''srem'', 3), (''scard'', 2), (''smembers'', 2),
      (''hset'', 4), (''hget'', 3), (''hexists'', 3), (''hdel'', 3), (''hlen'', 2),
      (''hkeys'', 2), (''hvals'', 2), (''hgetall'', 2), (''ping'', 1)}"
  using map_of_SomeD [OF assms] by (simp add: command_table_def)

lemma dispatch_unknown:
  assumes "map_of command_table cmd = None"
  shows "dispatch hasher db cmd command_parts = (db, reply_unknown cmd)"
proof -
  from assms(1) have "cmd \<notin> fst ` set command_table"
    by (simp add: map_of_eq_None_iff)
  then show ?thesis
    unfolding command_table_def
    by (simp add: dispatch_def)
qed

lemma dispatch_too_few:
  assumes "map_of command_table cmd = Some n" "length command_parts < n" "command_parts \<noteq> []"
  shows "dispatch hasher db cmd command_parts = (db, reply_unknown cmd)"
  using command_table_cases [OF assms(1)] assms(2,3)
  apply (simp only: insert_iff empty_iff prod.inject)
  apply (elim disjE conjE)
  apply (simp_all add: dispatch_simps)
  done

lemma min_parts_pos: "0 < min_parts cmd"
proof (cases "map_of command_table cmd")
  case None
  then show ?thesis by (simp add: min_parts_def)
next
  case (Some n)
  then show ?thesis
    using command_table_cases [OF Some] by (auto simp: min_parts_def)
qed

lemma dispatch_take:
  "dispatch hasher db cmd (take (min_parts cmd) command_parts) = dispatch hasher db cmd command_parts"
proof (cases "map_of command_table cmd")
  case None
  then show ?thesis
    by (simp add: dispatch_unknown)
next
  case (Some n)
  then have m: "min_parts cmd = n" by (simp add: min_parts_def)
  show ?thesis
    using command_table_cases [OF Some] unfolding m
    apply (simp only: insert_iff empty_iff prod.inject)
    apply (elim disjE conjE)
    apply (simp_all add: dispatch_simps split: sum.splits)
    done
qed

text \<open>
  C8. A known command with fewer tokens than its branch asks for falls through to the last
  branch and is answered as an unknown command, named in lower case, with the database
  untouched; a request without any token is answered by the error of the empty command.
\<close>

theorem too_few_arguments_is_unknown_command:
  "(tokenize command_str = [] \<longrightarrow>
      process_command hasher db command_str = (db, ''-ERR empty command'' @ CRLF)) \<and>
   (\<forall>n. tokenize command_str \<noteq> [] \<and>
        map_of command_table (map tolower (tokenize command_str ! 0)) = Some n \<and>
        length (tokenize command_str) < n \<longrightarrow>
      process_command hasher db command_str =
        (db, ''-ERR unknown command '' @ [CHR 0x27] @ map tolower (tokenize command_str ! 0) @
             [CHR 0x27] @ CRLF))"
  by (auto simp: process_command_def dispatch_too_few reply_unknown_def)

theorem too_few_arguments_is_unknown_command_witness:
  "process_command length BlinkDB_empty ''SET k'' =
     (BlinkDB_empty, ''-ERR unknown command '' @ [CHR 0x27] @ ''set'' @ [CHR 0x27] @ CRLF) \<and>
   process_command length BlinkDB_empty ''HsEt k f'' =
     (BlinkDB_empty, ''-ERR unknown command '' @ [CHR 0x27] @ ''hset'' @ [CHR 0x27] @ CRLF) \<and>
   process_command length BlinkDB_empty '' '' = (BlinkDB_empty, ''-ERR empty command'' @ CRLF)"
proof -
  have t1: "tokenize ''SET k'' = [''SET'', ''k'']" by code_simp
  have t2: "tokenize ''HsEt k f'' = [''HsEt'', ''k'', ''f'']" by code_simp
  have t3: "tokenize '' '' = []" by code_simp
  have l1: "[tolower CHR ''S'', tolower CHR ''E'', tolower CHR ''T''] = ''set''" by code_simp
  have l2: "[tolower CHR ''H'', tolower CHR ''s'', tolower CHR ''E'', tolower CHR ''t''] = ''hset''"
    by code_simp
  have m1: "map_of command_table ''set'' = Some 3" by (simp add: command_table_def)
  have m2: "map_of command_table ''hset'' = Some 4" by (simp add: command_table_def)
  show ?thesis
    using too_few_arguments_is_unknown_command [of "''SET k''" length BlinkDB_empty]
      too_few_arguments_is_unknown_command [of "''HsEt k f''" length BlinkDB_empty]
      too_few_arguments_is_unknown_command [of "'' ''" length BlinkDB_empty]
    by (simp add: t1 t2 t3 l1 l2 m1 m2)
qed

text \<open>
  C10. The tokens after those a command asks for are not looked at: a request answers, and
  leaves the database, as the request cut to the tokens its command needs does.
\<close>

theorem extra_tokens_ignored:
  assumes "tokenize short = take (min_parts (map tolower (tokenize long ! 0))) (tokenize long)"
  shows "process_command hasher db long = process_command hasher db short"
proof (cases "tokenize long = []")
  case True
  then show ?thesis using assms by (simp add: process_command_def)
next
  case False
  then obtain t ts where l: "tokenize long = t # ts" by (cases "tokenize long") auto
  obtain m where m: "min_parts (map tolower t) = Suc m"
    using min_parts_pos [of "map tolower t"] by (cases "min_parts (map tolower t)") auto
  have s: "tokenize short = t # take m ts"
    using assms l m by simp
  have "dispatch hasher db (map tolower t) (take (min_parts (map tolower t)) (t # ts)) =
        dispatch hasher db (map tolower t) (t # ts)"
    by (rule dispatch_take)
  then show ?thesis
    using l s m by (simp add: process_command_def)
qed

theorem extra_tokens_ignored_witness:
  "process_command length BlinkDB_empty ''SET k v extra'' =
     process_command length BlinkDB_empty ''SET k v'' \<and>
   snd (process_command length BlinkDB_empty ''SET k v extra'') = ''+OK'' @ CRLF"
proof -
  have t1: "tokenize ''SET k v extra'' = [''SET'', ''k'', ''v'', ''extra'']" by code_simp
  have t2: "tokenize ''SET k v'' = [''SET'', ''k'', ''v'']" by code_simp
  have l1: "[tolower CHR ''S'', tolower CHR ''E'', tolower CHR ''T''] = ''set''" by code_simp
  have m1: "min_parts ''set'' = 3" by (simp add: min_parts_def command_table_def)
  have "process_command length BlinkDB_empty ''SET k v extra'' =
        process_command length BlinkDB_empty ''SET k v''"
    using extra_tokens_ignored [of "''SET k v''" "''SET k v extra''" length BlinkDB_empty]
    by (simp add: t1 t2 l1 m1)
  moreover have "snd (process_command length BlinkDB_empty ''SET k v'') = ''+OK'' @ CRLF"
    by (simp add: process_command_def t2 l1 dispatch_simps)
  ultimately show ?thesis by simp
qed

subsection \<open>The recency list and the eviction\<close>

lemma lru_ok_access: "lru_ok c \<Longrightarrow> lru_ok (LRUCache_access key c)"
  by (auto simp: lru_ok_def LRUCache_access_def Let_def distinct_butlast length_remove1
      dest: in_set_butlastD notin_set_remove1)

lemma lru_ok_remove: "lru_ok c \<Longrightarrow> lru_ok (LRUCache_remove key c)"
  by (auto simp: lru_ok_def LRUCache_remove_def length_remove1)

text \<open>The list never grows beyond \<open>max_size\<close>, which is \<open>CACHE_SIZE\<close>, so the test of
  \<open>evict_if_needed\<close> is never true and nothing is evicted from the store.\<close>

lemma evict_if_needed_noop: "lru_ok (lru_cache db) \<Longrightarrow> evict_if_needed db = db"
  by (simp add: evict_if_needed_def LRUCache_size_def lru_ok_def)

lemma touch_simps [simp]:
  "store (touch key db) = store db"
  "bloom_filter (touch key db) = bloom_filter db"
  "lru_cache (touch key db) = LRUCache_access key (lru_cache db)"
  by (simp_all add: touch_def)

lemma erase_key_simps [simp]:
  "store (erase_key key db) = AList.delete key (store db)"
  "bloom_filter (erase_key key db) = bloom_filter db"
  "lru_cache (erase_key key db) = LRUCache_remove key (lru_cache db)"
  by (simp_all add: erase_key_def)

lemma access_remove_not_member:
  "distinct (cache c) \<Longrightarrow> key \<notin> set (cache (LRUCache_remove key (LRUCache_access key c)))"
  by (auto simp: LRUCache_access_def LRUCache_remove_def Let_def distinct_butlast
      dest: in_set_butlastD)

subsection \<open>The invariants of the database\<close>

lemma bloom_ok_iff:
  "bloom_ok h db \<longleftrightarrow> (\<forall>k. map_of (store db) k \<noteq> None \<longrightarrow> BloomFilter_contains h (bloom_filter db) k)"
  by (auto simp: bloom_ok_def map_of_eq_None_iff)

lemma no_empty_collection_iff:
  "no_empty_collection db \<longleftrightarrow>
     (\<forall>k v. map_of (store db) k = Some v \<longrightarrow> \<not> is_empty_collection v)"
proof
  assume l: "no_empty_collection db"
  show "\<forall>k v. map_of (store db) k = Some v \<longrightarrow> \<not> is_empty_collection v"
  proof (intro allI impI)
    fix k v
    assume kv: "map_of (store db) k = Some v"
    then have "k \<in> fst ` set (store db)"
      by (metis map_of_eq_None_iff option.distinct(1))
    with l have "case map_of (store db) k of Some v \<Rightarrow> \<not> is_empty_collection v | None \<Rightarrow> True"
      unfolding no_empty_collection_def by blast
    with kv show "\<not> is_empty_collection v" by simp
  qed
next
  assume "\<forall>k v. map_of (store db) k = Some v \<longrightarrow> \<not> is_empty_collection v"
  then show "no_empty_collection db"
    by (simp add: no_empty_collection_def split: option.splits)
qed

lemma BloomFilter_contains_add [simp]:
  "BloomFilter_contains h (BloomFilter_add h key bits) k \<longleftrightarrow>
     BloomFilter_hash h k = BloomFilter_hash h key \<or> BloomFilter_contains h bits k"
  by (auto simp: BloomFilter_contains_def BloomFilter_add_def)

text \<open>Under the invariant of the recency list the writes reduce to an update of the store
  and a touch.\<close>

lemma BlinkDB_set_eq:
  "lru_ok (lru_cache db) \<Longrightarrow>
   BlinkDB_set h db key v =
     (touch key db)\<lparr>store := AList.update key (StringType v) (store db),
                     bloom_filter := BloomFilter_add h key (bloom_filter db)\<rparr>"
  by (simp add: BlinkDB_set_def Let_def evict_if_needed_noop lru_ok_access touch_def)

lemma BlinkDB_lpush_eq:
  assumes "lru_ok (lru_cache db)"
  shows "BlinkDB_lpush h db key v =
     (case map_of (store db) key of
        None \<Rightarrow> ((touch key db)\<lparr>store := AList.update key (ListType [v]) (store db),
                     bloom_filter := BloomFilter_add h key (bloom_filter db)\<rparr>,
                 to_string_int (ListType_llen [v]))
      | Some (ListType es) \<Rightarrow>
          ((touch key db)\<lparr>store := AList.update key (ListType (v # es)) (store db)\<rparr>,
           to_string_int (ListType_llen (v # es)))
      | Some _ \<Rightarrow> (db, WRONGTYPE))"
  using assms
  by (auto simp: BlinkDB_lpush_def create_list_if_needed_def ListType_lpush_def Let_def
      evict_if_needed_noop lru_ok_access touch_def update_conv'
      split: option.splits DataType.splits)

subsection \<open>Requests of the protocol\<close>

lemma process_command_tokens:
  "tokenize s = t # ts \<Longrightarrow> process_command h db s = dispatch h db (map tolower t) (t # ts)"
  by (simp add: process_command_def)

lemma lower_names:
  "[tolower CHR ''G'', tolower CHR ''E'', tolower CHR ''T''] = ''get''"
  "[tolower CHR ''S'', tolower CHR ''E'', tolower CHR ''T''] = ''set''"
  by code_simp+

lemma is_token_names [simp]: "is_token ''GET''" "is_token ''SET''"
  by (simp_all add: is_token_def isspace_def)

lemma process_GET:
  assumes "is_token k"
  shows "process_command h db (''GET '' @ k) = apsnd reply_bulk (BlinkDB_get h db k)"
proof -
  have "tokenize (''GET'' @ '' '' @ k) = [''GET'', k]"
    by (rule tokenize_2) (simp_all add: assms)
  then have "tokenize (''GET '' @ k) = [''GET'', k]" by simp
  then show ?thesis
    by (simp add: process_command_tokens lower_names dispatch_simps)
qed

lemma process_SET:
  assumes "is_token k" "is_token v"
  shows "process_command h db (''SET '' @ k @ '' '' @ v) = (BlinkDB_set h db k v, ''+OK'' @ CRLF)"
proof -
  have "tokenize (''SET'' @ '' '' @ k @ '' '' @ v) = [''SET'', k, v]"
    by (rule tokenize_3) (simp_all add: assms)
  then have "tokenize (''SET '' @ k @ '' '' @ v) = [''SET'', k, v]" by simp
  then show ?thesis
    by (simp add: process_command_tokens lower_names dispatch_simps)
qed

lemma BlinkDB_get_string:
  assumes "map_of (store db) k = Some (StringType v)" "BloomFilter_contains h (bloom_filter db) k"
  shows "BlinkDB_get h db k = (touch k db, v)"
  using assms by (simp add: BlinkDB_get_def)

lemma reply_bulk_cases:
  "reply_bulk v = (if v = ''NULL'' then ''$-1'' @ CRLF
                   else if take 9 v = ''WRONGTYPE'' then ''-'' @ v @ CRLF
                   else ''$'' @ to_string (length v) @ CRLF @ v @ CRLF)"
  by (simp add: reply_bulk_def substr_def)

text \<open>
  C9. When the key holds a string that begins with the nine characters WRONGTYPE,
  \<open>GET\<close> answers with the encoding of an error, a minus sign before the value, and not
  with the bulk string of the value.
\<close>

theorem get_of_wrongtype_prefixed_string:
  assumes "is_token k" "bloom_ok h db" "map_of (store db) k = Some (StringType v)"
    and "take 9 v = ''WRONGTYPE''"
  shows "snd (process_command h db (''GET '' @ k)) = ''-'' @ v @ CRLF \<and>
         snd (process_command h db (''GET '' @ k)) \<noteq> bulk v"
proof -
  have c: "BloomFilter_contains h (bloom_filter db) k"
    using assms(2,3) by (simp add: bloom_ok_iff)
  have n: "v \<noteq> ''NULL''"
    using assms(4) by auto
  show ?thesis
    unfolding process_GET [OF assms(1)] BlinkDB_get_string [OF assms(3) c]
    using assms(4) n by (simp add: reply_bulk_cases bulk_def)
qed

theorem get_of_wrongtype_prefixed_string_witness:
  "snd (process_command length (BlinkDB_set length BlinkDB_empty ''k'' ''WRONGTYPEfoo'') ''GET k'') =
     ''-WRONGTYPEfoo'' @ CRLF"
proof -
  have 1: "is_token ''k''" by (simp add: is_token_def isspace_def)
  have 2: "bloom_ok length (BlinkDB_set length BlinkDB_empty ''k'' ''WRONGTYPEfoo'')"
    by code_simp
  have 3: "map_of (store (BlinkDB_set length BlinkDB_empty ''k'' ''WRONGTYPEfoo'')) ''k'' =
             Some (StringType ''WRONGTYPEfoo'')"
    by code_simp
  have 4: "take 9 ''WRONGTYPEfoo'' = ''WRONGTYPE''" by simp
  show ?thesis
    using get_of_wrongtype_prefixed_string [OF 1 2 3 4] by simp
qed

text \<open>
  C4, as the code has it. On a database that satisfies the invariant of the recency list,
  \<open>SET k v\<close> with tokens \<open>k\<close> and \<open>v\<close> answers \<open>+OK\<close>, the \<open>get\<close> of the
  database then returns \<open>v\<close>, and the request \<open>GET k\<close> answers the bulk string of \<open>v\<close>
  unless \<open>v\<close> is the word NULL, answered by the null bulk string, or begins with WRONGTYPE,
  answered as an error.
\<close>

theorem set_then_get:
  assumes "lru_ok (lru_cache db)" "is_token k" "is_token v"
  shows "process_command h db (''SET '' @ k @ '' '' @ v) = (BlinkDB_set h db k v, ''+OK'' @ CRLF) \<and>
         snd (BlinkDB_get h (BlinkDB_set h db k v) k) = v \<and>
         snd (process_command h (BlinkDB_set h db k v) (''GET '' @ k)) =
           (if v = ''NULL'' then ''$-1'' @ CRLF
            else if take 9 v = ''WRONGTYPE'' then ''-'' @ v @ CRLF
            else ''$'' @ to_string (length v) @ CRLF @ v @ CRLF)"
proof -
  let ?db1 = "BlinkDB_set h db k v"
  have s: "map_of (store ?db1) k = Some (StringType v)"
    by (simp add: BlinkDB_set_eq [OF assms(1)] update_conv')
  have c: "BloomFilter_contains h (bloom_filter ?db1) k"
    by (simp add: BlinkDB_set_eq [OF assms(1)])
  have g: "BlinkDB_get h ?db1 k = (touch k ?db1, v)"
    by (rule BlinkDB_get_string [OF s c])
  show ?thesis
    unfolding process_SET [OF assms(2,3)] process_GET [OF assms(2)] g
    by (simp add: reply_bulk_cases)
qed

theorem set_then_get_witness:
  "process_command length BlinkDB_empty ''SET foo bar'' =
     (BlinkDB_set length BlinkDB_empty ''foo'' ''bar'', ''+OK'' @ CRLF) \<and>
   snd (process_command length (BlinkDB_set length BlinkDB_empty ''foo'' ''bar'') ''GET foo'') =
     ''$3'' @ CRLF @ ''bar'' @ CRLF"
proof -
  have 1: "lru_ok (lru_cache BlinkDB_empty)" by (simp add: lru_ok_def BlinkDB_empty_def)
  have 2: "is_token ''foo''" by (simp add: is_token_def isspace_def)
  have 3: "is_token ''bar''" by (simp add: is_token_def isspace_def)
  have 4: "to_string (Suc (Suc (Suc 0))) = ''3''" by code_simp
  show ?thesis
    using set_then_get [OF 1 2 3, of length] by (simp add: 4)
qed

theorem set_then_get_counterexample:
  "process_command length BlinkDB_empty ''SET k NULL'' =
     (BlinkDB_set length BlinkDB_empty ''k'' ''NULL'', ''+OK'' @ CRLF) \<and>
   snd (process_command length (BlinkDB_set length BlinkDB_empty ''k'' ''NULL'') ''GET k'') =
     ''$-1'' @ CRLF \<and>
   snd (process_command length (BlinkDB_set length BlinkDB_empty ''k'' ''NULL'') ''GET k'') \<noteq>
     bulk ''NULL''"
  by code_simp

subsection \<open>Persistence\<close>

lemma load_missing_file: "BlinkDB_new h None = Some (Inr BlinkDB_empty)"
  by (simp add: BlinkDB_new_def load_from_disk_def)

text \<open>A negative length that sends \<open>pos\<close> back to where it was: the loop of
  \<open>ListType::deserialize\<close> never ends on the data \<open>L-4:\<close>.\<close>

lemma ListType_deserialize_loop_forever:
  "ListType_deserialize_loop ''L-4:'' 1 elements = None"
proof (rule ccontr)
  assume "ListType_deserialize_loop ''L-4:'' 1 elements \<noteq> None"
  then obtain y where y: "ListType_deserialize_loop ''L-4:'' 1 elements = Some y" by auto
  have f: "str_find ''L-4:'' CHR '':'' 1 = Some 3" by code_simp
  have s: "stoi (substr ''L-4:'' 1 2) = Inr (- 4)" by code_simp
  have z: "size_t (int 3 + - 4 + 2) = 1" by (simp add: size_t_def)
  have "\<not> (''L-4:'' = ''L-4:'' \<and> (1::nat) = 1)"
  proof (rule ListType_deserialize_loop.raw_induct
            [where P = "\<lambda>data pos els r. \<not> (data = ''L-4:'' \<and> pos = 1)", OF _ y])
    fix loop :: "string \<Rightarrow> nat \<Rightarrow> string list \<Rightarrow> (exn + string list) option"
    fix data pos els r
    assume IH: "\<And>data pos els r. loop data pos els = Some r \<Longrightarrow> \<not> (data = ''L-4:'' \<and> pos = 1)"
    assume step: "(if pos < length data then
        (case str_find data CHR '':'' pos of
           None \<Rightarrow> Some (Inr els)
         | Some colon_pos \<Rightarrow>
             (case stoi (substr data pos (colon_pos - pos)) of
                Inl e \<Rightarrow> Some (Inl e)
              | Inr len \<Rightarrow>
                  loop data (size_t (int colon_pos + len + 2))
                    (els @ [substr data (colon_pos + 1) (size_t len)])))
      else Some (Inr els)) = Some r"
    show "\<not> (data = ''L-4:'' \<and> pos = 1)"
    proof
      assume a: "data = ''L-4:'' \<and> pos = 1"
      with step f s z have "loop ''L-4:'' 1 (els @ [substr ''L-4:'' 4 (size_t (- 4))]) = Some r"
        by simp
      from IH [OF this] show False by simp
    qed
  qed
  then show False by simp
qed

lemma load_never_ends: "BlinkDB_new h (Some ''L k L-4:'') = None"
proof -
  have g: "getlines ''L k L-4:'' = [''L k L-4:'']" by code_simp
  have l: "ListType_deserialize_loop ''L-4:'' (Suc 0) [] = None"
    using ListType_deserialize_loop_forever [of "[]"] by simp
  have "load_line h BlinkDB_empty ''L k L-4:'' = None"
    by (simp add: load_line_def Let_def str_find_def substr_def ListType_deserialize_def l)
  then show ?thesis
    by (simp add: BlinkDB_new_def load_from_disk_def g)
qed

text \<open>
  C3, at a file the code does not survive. The second line of the file has a length that
  is not a number: \<^verbatim>\<open>std::stoi\<close> throws inside \<^verbatim>\<open>ListType::deserialize\<close>,
  nothing in \<^verbatim>\<open>load_from_disk\<close> catches it, and the exception leaves the constructor:
  the line is not skipped and the lines around it are not loaded. Without that line the
  same file loads, the lines that are too short or of an unknown kind being skipped.
\<close>

theorem load_corrupt_line_throws:
  "BlinkDB_new length (Some ''S a 1\<newline>L k Lx:a,\<newline>S b 2\<newline>'') = Some (Inl invalid_argument) \<and>
   map_option (map_sum id store) (BlinkDB_new length (Some ''S a 1\<newline>L\<newline>X k v\<newline>S b 2\<newline>'')) =
     Some (Inr [(''a'', StringType ''1''), (''b'', StringType ''2'')])"
  by code_simp

text \<open>
  C2, at a database the code does not load again. After \<open>HSET h f v\<close> the store holds one
  hash with one field; it is saved as the line \<open>H h H1:f:1:v,\<close>, and loading that line
  throws: \<^verbatim>\<open>HashType::deserialize\<close> searches the second colon from the position of
  the colon that ends the field, finds it there, and calls \<^verbatim>\<open>std::stoi\<close> on the empty
  string.
\<close>

theorem hash_round_trip_throws:
  "store (fst (process_command length BlinkDB_empty ''HSET h f v'')) =
     [(''h'', HashType [(''f'', ''v'')])] \<and>
   save_to_disk (fst (process_command length BlinkDB_empty ''HSET h f v'')) =
     ''H h H1:f:1:v,\<newline>'' \<and>
   HashType_deserialize (HashType_serialize [(''f'', ''v'')]) = Some (Inl invalid_argument) \<and>
   BlinkDB_new length (Some ''H h H1:f:1:v,\<newline>'') = Some (Inl invalid_argument)"
  by code_simp

subsection \<open>The range of a list\<close>

lemma int32_id: "- (2 ^ 31) \<le> x \<Longrightarrow> x < 2 ^ 31 \<Longrightarrow> int32 x = x"
  by (simp add: int32_def)

text \<open>Without the cut to 32 bits, on lists and indices that fit an \<open>int\<close>: what
  \<open>ListType::lrange\<close> computes.\<close>

lemma ListType_lrange_eq:
  assumes "length elements < 2 ^ 31" "- (2 ^ 31) \<le> start" "start < 2 ^ 31"
    "- (2 ^ 31) \<le> end" "end < 2 ^ 31"
    and "s = max 0 (if start < 0 then int (length elements) + start else start)"
    and "e = min (int (length elements) - 1) (if end < 0 then int (length elements) + end else end)"
  shows "ListType_lrange elements start end =
           (if s > e then [] else take (nat (e - s + 1)) (drop (nat s) elements))"
proof (cases "elements = []")
  case True
  then show ?thesis by (simp add: ListType_lrange_def)
next
  case False
  have l: "int32 (int (length elements)) = int (length elements)"
    using assms(1) by (intro int32_id) auto
  have s1: "(if start < 0 then int32 (int (length elements) + start) else start) =
            (if start < 0 then int (length elements) + start else start)"
    using assms(1,2) by (auto intro!: int32_id)
  have e1: "(if end < 0 then int32 (int (length elements) + end) else end) =
            (if end < 0 then int (length elements) + end else end)"
    using assms(1,4) by (auto intro!: int32_id)
  have r: "ListType_lrange elements start end =
             (if s > e then [] else take (nat (e + 1) - nat s) (drop (nat s) elements))"
    using False unfolding ListType_lrange_def Let_def l s1 e1 assms(6,7) by simp
  have "0 \<le> s" using assms(6) by simp
  then have t: "\<not> s > e \<Longrightarrow> nat (e + 1) - nat s = nat (e - s + 1)"
    by linarith
  show ?thesis
    unfolding r using t by simp
qed

text \<open>What \<^verbatim>\<open>ListType::lrange\<close> returns: negative bounds count from the end, then the
  start is only raised to 0 and the end is only lowered to \<open>len - 1\<close>.\<close>

lemma ListType_lrange_clamping:
  assumes "length elements < 2 ^ 31" "- (2 ^ 31) \<le> start" "start < 2 ^ 31"
    "- (2 ^ 31) \<le> end" "end < 2 ^ 31"
    and "s = max 0 (if start < 0 then int (length elements) + start else start)"
    and "e = min (int (length elements) - 1) (if end < 0 then int (length elements) + end else end)"
  shows "(s > e \<longrightarrow> ListType_lrange elements start end = []) \<and>
         (s \<le> e \<longrightarrow> 0 \<le> s \<and> e \<le> int (length elements) - 1 \<and>
            ListType_lrange elements start end = map (\<lambda>i. elements ! i) [nat s ..< nat e + 1]) \<and>
         (int (length elements) \<le> start \<longrightarrow> ListType_lrange elements start end = []) \<and>
         ListType_lrange [a, b, c] (- 100) 100 = [a, b, c] \<and>
         ListType_lrange [a, b, c] 2 1 = []"
proof (intro conjI impI)
  note eq = ListType_lrange_eq [OF assms]
  show "ListType_lrange elements start end = []" if "s > e"
    using that by (simp add: eq)
  show s0: "0 \<le> s" using assms(6) by simp
  show e1: "e \<le> int (length elements) - 1" using assms(7) by simp
  show "ListType_lrange elements start end = map (\<lambda>i. elements ! i) [nat s ..< nat e + 1]"
    if "s \<le> e"
  proof -
    have r: "ListType_lrange elements start end = take (nat (e - s + 1)) (drop (nat s) elements)"
      using that by (simp add: eq)
    have n: "nat (e - s + 1) = nat e + 1 - nat s" using that s0 by linarith
    have le: "nat e + 1 \<le> length elements" using e1 that s0 by linarith
    have len: "length (take (nat (e - s + 1)) (drop (nat s) elements)) = nat e + 1 - nat s"
      unfolding n length_take length_drop using le by linarith
    have "map (\<lambda>i. elements ! i) [nat s ..< nat e + 1] =
          take (nat (e - s + 1)) (drop (nat s) elements)"
    proof (rule map_upt_eqI [OF len])
      fix i
      assume "i < length (take (nat (e - s + 1)) (drop (nat s) elements))"
      then have "i < nat e + 1 - nat s" unfolding len .
      then show "take (nat (e - s + 1)) (drop (nat s) elements) ! i = elements ! (nat s + i)"
        unfolding n using le by simp
    qed
    then show ?thesis
      using r by simp
  qed
  show "ListType_lrange elements start end = []" if "int (length elements) \<le> start"
  proof -
    have "0 \<le> start" using that by linarith
    then have "s = start" using assms(6) by simp
    then have "e < s" using that e1 by linarith
    then show ?thesis by (simp add: eq)
  qed
  show "ListType_lrange [a, b, c] (- 100) 100 = [a, b, c]"
    by (simp add: ListType_lrange_def int32_def)
  show "ListType_lrange [a, b, c] 2 1 = []"
    by (simp add: ListType_lrange_def int32_def)
qed

text \<open>The request \<open>LRANGE\<close>: its two bounds are read by \<^verbatim>\<open>std::stoi\<close>, the range is
  taken by \<^verbatim>\<open>ListType::lrange\<close> and encoded as an array.\<close>

lemma stoi_range: "stoi t = Inr v \<Longrightarrow> - (2 ^ 31) \<le> v \<and> v < 2 ^ 31"
  by (auto simp: stoi_def Let_def split: if_splits)

lemma tokenize_4:
  "is_token a \<Longrightarrow> is_token b \<Longrightarrow> is_token c \<Longrightarrow> is_token d \<Longrightarrow>
   tokenize (a @ '' '' @ b @ '' '' @ c @ '' '' @ d) = [a, b, c, d]"
  by (simp add: tokenize_token tokenize_last)

lemma lower_LRANGE:
  "[tolower CHR ''L'', tolower CHR ''R'', tolower CHR ''A'', tolower CHR ''N'', tolower CHR ''G'',
    tolower CHR ''E''] = ''lrange''"
  by code_simp

lemma is_token_LRANGE [simp]: "is_token ''LRANGE''"
  by (simp add: is_token_def isspace_def)

lemma process_LRANGE:
  assumes "is_token k" "is_token a" "is_token b"
  shows "process_command h db (''LRANGE '' @ k @ '' '' @ a @ '' '' @ b) =
     (case stoi a of
        Inl e \<Rightarrow> (db, reply_exception e)
      | Inr start \<Rightarrow>
          (case stoi b of
             Inl e \<Rightarrow> (db, reply_exception e)
           | Inr end \<Rightarrow> apsnd reply_array (BlinkDB_lrange db k start end)))"
proof -
  have "tokenize (''LRANGE'' @ '' '' @ k @ '' '' @ a @ '' '' @ b) = [''LRANGE'', k, a, b]"
    by (rule tokenize_4) (simp_all add: assms)
  then have "tokenize (''LRANGE '' @ k @ '' '' @ a @ '' '' @ b) = [''LRANGE'', k, a, b]" by simp
  then show ?thesis
    by (simp add: process_command_tokens lower_LRANGE dispatch_simps split: sum.splits)
qed

lemma reply_array_array: "reply_array (array items) = array items"
  by (simp add: reply_array_def array_def substr_def)

lemma array_Nil: "array [] = ''*0'' @ CRLF"
proof -
  have "to_string 0 = ''0''" by code_simp
  then show ?thesis by (simp add: array_def)
qed

lemma BlinkDB_lrange_list:
  "map_of (store db) k = Some (ListType elements) \<Longrightarrow>
   BlinkDB_lrange db k start end = (touch k db, array (ListType_lrange elements start end))"
  by (simp add: BlinkDB_lrange_def)

lemma LRANGE_on_list:
  assumes "is_token k" "is_token a" "is_token b" "stoi a = Inr start" "stoi b = Inr end"
    and "map_of (store db) k = Some (ListType elements)"
  shows "process_command h db (''LRANGE '' @ k @ '' '' @ a @ '' '' @ b) =
           (touch k db, array (ListType_lrange elements start end))"
  unfolding process_LRANGE [OF assms(1-3)] assms(4,5) sum.case BlinkDB_lrange_list [OF assms(6)]
  by (simp add: reply_array_array)

text \<open>
  C7, as the code has it. The key \<open>k\<close> holds a list shorter than \<open>2 ^ 31\<close> and the
  request is \<open>LRANGE k a b\<close> with bounds that \<^verbatim>\<open>std::stoi\<close> reads as \<open>start\<close> and
  \<open>end\<close>. Negative bounds count from the end of the list; then the start is only raised
  to 0 and the end is only lowered to \<open>len - 1\<close>. The response is the empty array when the
  start is then beyond the end, which is so for every start from \<open>len\<close> on; otherwise
  both lie in \<open>[0, len - 1]\<close> and the response is the array of the elements from the start
  to the end, in order. The key is touched. On three elements \<open>LRANGE k -100 100\<close>
  answers all of them and \<open>LRANGE k 2 1\<close> the empty array.
\<close>

theorem lrange_one_sided_clamping:
  assumes "is_token k" "is_token a" "is_token b" "stoi a = Inr start" "stoi b = Inr end"
    and "map_of (store db) k = Some (ListType elements)" "length elements < 2 ^ 31"
    and "s = max 0 (if start < 0 then int (length elements) + start else start)"
    and "e = min (int (length elements) - 1) (if end < 0 then int (length elements) + end else end)"
  shows "process_command h db (''LRANGE '' @ k @ '' '' @ a @ '' '' @ b) =
           (touch k db,
            if s > e then ''*0'' @ CRLF
            else array (map (\<lambda>i. elements ! i) [nat s ..< nat e + 1])) \<and>
         (s \<le> e \<longrightarrow> 0 \<le> s \<and> e \<le> int (length elements) - 1) \<and>
         (int (length elements) \<le> start \<longrightarrow> e < s) \<and>
         (elements = [x, y, z] \<longrightarrow>
            process_command h db (''LRANGE '' @ k @ '' -100 100'') = (touch k db, array [x, y, z]) \<and>
            process_command h db (''LRANGE '' @ k @ '' 2 1'') = (touch k db, ''*0'' @ CRLF))"
proof (intro conjI impI)
  note r = stoi_range [OF assms(4)] stoi_range [OF assms(5)]
  note c = ListType_lrange_clamping [OF assms(7) conjunct1 [OF r(1)] conjunct2 [OF r(1)]
      conjunct1 [OF r(2)] conjunct2 [OF r(2)] assms(8,9)]
  have l: "ListType_lrange elements start end =
             (if s > e then [] else map (\<lambda>i. elements ! i) [nat s ..< nat e + 1])"
    using c by (cases "s > e") simp_all
  show "process_command h db (''LRANGE '' @ k @ '' '' @ a @ '' '' @ b) =
           (touch k db,
            if s > e then ''*0'' @ CRLF
            else array (map (\<lambda>i. elements ! i) [nat s ..< nat e + 1]))"
    unfolding LRANGE_on_list [OF assms(1-6)] l
    by (simp add: array_Nil)
  show "0 \<le> s" using assms(8) by simp
  show "e \<le> int (length elements) - 1" using assms(9) by simp
  show "e < s" if "int (length elements) \<le> start"
  proof -
    have "0 \<le> start" using that by linarith
    then have "s = start" using assms(8) by simp
    moreover have "e \<le> int (length elements) - 1" using assms(9) by simp
    ultimately show ?thesis using that by linarith
  qed
next
  assume xyz: "elements = [x, y, z]"
  have t: "is_token ''-100''" "is_token ''100''" "is_token ''2''" "is_token ''1''"
    by (simp_all add: is_token_def isspace_def)
  have n: "stoi ''-100'' = Inr (- 100)" "stoi ''100'' = Inr 100" "stoi ''2'' = Inr 2"
    "stoi ''1'' = Inr 1"
    by code_simp+
  have m: "map_of (store db) k = Some (ListType [x, y, z])" using assms(6) xyz by simp
  have 1: "ListType_lrange [x, y, z] (- 100) 100 = [x, y, z]"
    by (simp add: ListType_lrange_def int32_def)
  have 2: "ListType_lrange [x, y, z] 2 1 = []"
    by (simp add: ListType_lrange_def int32_def)
  have "process_command h db (''LRANGE '' @ k @ '' '' @ ''-100'' @ '' '' @ ''100'') =
          (touch k db, array [x, y, z])"
    unfolding LRANGE_on_list [OF assms(1) t(1,2) n(1,2) m] 1 ..
  then show "process_command h db (''LRANGE '' @ k @ '' -100 100'') = (touch k db, array [x, y, z])"
    by simp
  have "process_command h db (''LRANGE '' @ k @ '' '' @ ''2'' @ '' '' @ ''1'') =
          (touch k db, ''*0'' @ CRLF)"
    unfolding LRANGE_on_list [OF assms(1) t(3,4) n(3,4) m] 2 array_Nil ..
  then show "process_command h db (''LRANGE '' @ k @ '' 2 1'') = (touch k db, ''*0'' @ CRLF)"
    by simp
qed

lemma three_pushes:
  "fst (process_commands length BlinkDB_empty [''RPUSH k a'', ''RPUSH k b'', ''RPUSH k c'']) =
     \<lparr>store = [(''k'', ListType [''a'', ''b'', ''c''])],
      lru_cache = \<lparr>cache = [''k''], max_size = 1000\<rparr>, bloom_filter = {1}\<rparr>"
  by code_simp

theorem lrange_one_sided_clamping_witness:
  "snd (process_command length
     (fst (process_commands length BlinkDB_empty [''RPUSH k a'', ''RPUSH k b'', ''RPUSH k c'']))
     ''LRANGE k -2 100'') = ''*2'' @ CRLF @ ''$1'' @ CRLF @ ''b'' @ CRLF @ ''$1'' @ CRLF @ ''c'' @ CRLF \<and>
   snd (process_command length
     (fst (process_commands length BlinkDB_empty [''RPUSH k a'', ''RPUSH k b'', ''RPUSH k c'']))
     ''LRANGE k -100 100'') =
       ''*3'' @ CRLF @ ''$1'' @ CRLF @ ''a'' @ CRLF @ ''$1'' @ CRLF @ ''b'' @ CRLF @ ''$1'' @ CRLF @
       ''c'' @ CRLF \<and>
   snd (process_command length
     (fst (process_commands length BlinkDB_empty [''RPUSH k a'', ''RPUSH k b'', ''RPUSH k c'']))
     ''LRANGE k 2 1'') = ''*0'' @ CRLF"
proof -
  let ?db = "\<lparr>store = [(''k'', ListType [''a'', ''b'', ''c''])],
      lru_cache = \<lparr>cache = [''k''], max_size = 1000\<rparr>, bloom_filter = {1}\<rparr>"
  have t: "is_token ''k''" "is_token ''-2''" "is_token ''100''"
    by (simp_all add: is_token_def isspace_def)
  have n: "stoi ''-2'' = Inr (- 2)" "stoi ''100'' = Inr 100"
    by code_simp+
  have m: "map_of (store ?db) ''k'' = Some (ListType [''a'', ''b'', ''c''])" by simp
  have l: "length [''a'', ''b'', ''c''] < 2 ^ 31" by simp
  have s: "(1 :: int) = max 0 (if (- 2 :: int) < 0 then int (length [''a'', ''b'', ''c'']) + (- 2) else - 2)"
    by simp
  have e: "(2 :: int) = min (int (length [''a'', ''b'', ''c'']) - 1)
        (if (100 :: int) < 0 then int (length [''a'', ''b'', ''c'']) + 100 else 100)"
    by simp
  note w = lrange_one_sided_clamping [OF t n m l s e,
      where h = length and x = "''a''" and y = "''b''" and z = "''c''"]
  have a2: "array [''b'', ''c''] = ''*2'' @ CRLF @ ''$1'' @ CRLF @ ''b'' @ CRLF @ ''$1'' @ CRLF @ ''c'' @ CRLF"
    by code_simp
  have a3: "array [''a'', ''b'', ''c''] =
      ''*3'' @ CRLF @ ''$1'' @ CRLF @ ''a'' @ CRLF @ ''$1'' @ CRLF @ ''b'' @ CRLF @ ''$1'' @ CRLF @
      ''c'' @ CRLF"
    by code_simp
  have u: "[Suc 0..<3] = [1, 2]" by (simp add: upt_rec)
  have 1: "snd (process_command length ?db (''LRANGE '' @ ''k'' @ '' '' @ ''-2'' @ '' '' @ ''100'')) =
             array [''b'', ''c'']"
    using w by (simp add: u)
  have 2: "snd (process_command length ?db (''LRANGE '' @ ''k'' @ '' -100 100'')) =
             array [''a'', ''b'', ''c'']"
    using w by simp
  have 3: "snd (process_command length ?db (''LRANGE '' @ ''k'' @ '' 2 1'')) = ''*0'' @ CRLF"
    using w by simp
  show ?thesis
    unfolding three_pushes using 1 2 3 unfolding a2 a3 by simp
qed

text \<open>The range with both bounds clamped into \<open>[0, len - 1]\<close>, as the claim words it, keeps
  the last element where the request is answered by the empty array: \<open>LRANGE k 5 10\<close> on
  three elements. The last element is the answer to \<open>LRANGE k 2 10\<close>, where only the end
  is beyond the list.\<close>

theorem lrange_clamping_counterexample:
  "map_of (store (fst (process_commands length BlinkDB_empty
       [''RPUSH k a'', ''RPUSH k b'', ''RPUSH k c'']))) ''k'' = Some (ListType [''a'', ''b'', ''c'']) \<and>
   snd (process_command length
     (fst (process_commands length BlinkDB_empty [''RPUSH k a'', ''RPUSH k b'', ''RPUSH k c'']))
     ''LRANGE k 5 10'') = ''*0'' @ CRLF \<and>
   array (lrange_spec [''a'', ''b'', ''c''] 5 10) = ''*1'' @ CRLF @ ''$1'' @ CRLF @ ''c'' @ CRLF \<and>
   snd (process_command length
     (fst (process_commands length BlinkDB_empty [''RPUSH k a'', ''RPUSH k b'', ''RPUSH k c'']))
     ''LRANGE k 2 10'') = ''*1'' @ CRLF @ ''$1'' @ CRLF @ ''c'' @ CRLF"
  unfolding three_pushes by code_simp

subsection \<open>The capacity of the store\<close>

lemma is_token_replicate: "is_token (replicate (Suc i) CHR ''k'')"
  by (simp add: is_token_def isspace_def)

lemma is_token_v [simp]: "is_token ''v''"
  by (simp add: is_token_def isspace_def)

lemma fst_process_commands_Cons:
  "fst (process_commands h db (c # cs)) = fst (process_commands h (fst (process_command h db c)) cs)"
  by (simp split: prod.splits)

text \<open>A run of \<open>SET\<close> requests adds each of its keys to the store and removes none, while
  the recency list stays within its bound.\<close>

lemma run_of_sets:
  assumes "lru_ok (lru_cache db)" "\<forall>k\<in>set ks. is_token k" "distinct (map fst (store db))"
  shows "lru_ok (lru_cache (fst (process_commands h db (map (\<lambda>k. ''SET '' @ k @ '' v'') ks)))) \<and>
         distinct (map fst (store (fst (process_commands h db (map (\<lambda>k. ''SET '' @ k @ '' v'') ks))))) \<and>
         fst ` set (store (fst (process_commands h db (map (\<lambda>k. ''SET '' @ k @ '' v'') ks)))) =
           fst ` set (store db) \<union> set ks"
  using assms
proof (induction ks arbitrary: db)
  case Nil
  then show ?case by simp
next
  case (Cons k ks)
  let ?db1 = "BlinkDB_set h db k ''v''"
  have k: "is_token k" using Cons.prems(2) by simp
  have ks: "\<forall>k\<in>set ks. is_token k" using Cons.prems(2) by simp
  have p: "process_command h db (''SET '' @ k @ '' v'') = (?db1, ''+OK'' @ CRLF)"
    using process_SET [OF k is_token_v, of h db] by simp
  have l1: "lru_ok (lru_cache ?db1)"
    by (simp add: BlinkDB_set_eq [OF Cons.prems(1)] lru_ok_access Cons.prems(1))
  have d1: "distinct (map fst (store ?db1))"
    by (simp add: BlinkDB_set_eq [OF Cons.prems(1)] distinct_update Cons.prems(3))
  have s1: "fst ` set (store ?db1) = {k} \<union> fst ` set (store db)"
    by (simp add: BlinkDB_set_eq [OF Cons.prems(1)] dom_update)
  have e: "fst (process_commands h db (map (\<lambda>k. ''SET '' @ k @ '' v'') (k # ks))) =
           fst (process_commands h ?db1 (map (\<lambda>k. ''SET '' @ k @ '' v'') ks))"
    unfolding list.map fst_process_commands_Cons p fst_conv ..
  note ih = Cons.IH [OF l1 ks d1]
  have u: "{k} \<union> fst ` set (store db) \<union> set ks = fst ` set (store db) \<union> set (k # ks)"
    by auto
  show ?case
    unfolding e using ih unfolding s1 u by blast
qed

text \<open>
  C1, at the requests the code does not bound. From the empty database, \<open>CACHE_SIZE + 1\<close>
  requests \<open>SET\<close> on keys that differ leave \<open>CACHE_SIZE + 1\<close> keys in the store, the
  first of them included, while the recency list holds \<open>CACHE_SIZE\<close> keys at most:
  \<^verbatim>\<open>LRUCache::access\<close> drops its oldest key by itself, so \<^verbatim>\<open>evict_if_needed\<close>
  never sees more than \<open>CACHE_SIZE\<close> keys and erases nothing from the store.
\<close>

theorem store_exceeds_capacity:
  "length (store (fst (process_commands length BlinkDB_empty
      (map (\<lambda>k. ''SET '' @ k @ '' v'') (map (\<lambda>i. replicate (Suc i) CHR ''k'') [0..<CACHE_SIZE + 1])))))
     = CACHE_SIZE + 1 \<and>
   ''k'' \<in> fst ` set (store (fst (process_commands length BlinkDB_empty
      (map (\<lambda>k. ''SET '' @ k @ '' v'') (map (\<lambda>i. replicate (Suc i) CHR ''k'') [0..<CACHE_SIZE + 1]))))) \<and>
   length (cache (lru_cache (fst (process_commands length BlinkDB_empty
      (map (\<lambda>k. ''SET '' @ k @ '' v'') (map (\<lambda>i. replicate (Suc i) CHR ''k'') [0..<CACHE_SIZE + 1]))))))
     \<le> CACHE_SIZE"
proof -
  let ?ks = "map (\<lambda>i. replicate (Suc i) CHR ''k'') [0..<CACHE_SIZE + 1]"
  let ?db = "fst (process_commands length BlinkDB_empty (map (\<lambda>k. ''SET '' @ k @ '' v'') ?ks))"
  have 1: "lru_ok (lru_cache BlinkDB_empty)" by (simp add: lru_ok_def BlinkDB_empty_def)
  have 2: "\<forall>k\<in>set ?ks. is_token k" using is_token_replicate by auto
  have 3: "distinct (map fst (store BlinkDB_empty))" by (simp add: BlinkDB_empty_def)
  note r = run_of_sets [OF 1 2 3, of length]
  have inj: "inj_on (\<lambda>i. replicate (Suc i) CHR ''k'') {0..<CACHE_SIZE + 1}"
    by (rule inj_onI) (metis length_replicate old.nat.inject)
  have dk: "distinct ?ks"
    unfolding distinct_map set_upt using inj distinct_upt by blast
  have keys: "set (map fst (store ?db)) = set ?ks"
    using r by (simp add: BlinkDB_empty_def)
  have "length (store ?db) = length (map fst (store ?db))" by simp
  also have "\<dots> = card (set (map fst (store ?db)))"
    using r by (metis distinct_card)
  also have "\<dots> = card (set ?ks)" unfolding keys ..
  also have "\<dots> = length ?ks" using dk by (rule distinct_card)
  also have "\<dots> = CACHE_SIZE + 1" by simp
  finally have a: "length (store ?db) = CACHE_SIZE + 1" .
  have "replicate (Suc 0) CHR ''k'' \<in> set ?ks"
    unfolding set_map by (rule imageI) (simp add: CACHE_SIZE_def)
  then have b: "''k'' \<in> fst ` set (store ?db)"
    using keys by simp
  have c: "length (cache (lru_cache ?db)) \<le> CACHE_SIZE"
    using r by (simp add: lru_ok_def)
  show ?thesis using a b c by blast
qed

subsection \<open>Commands on a key of another kind\<close>

lemma reply_WRONGTYPE [simp]:
  "reply_bulk WRONGTYPE = ''-'' @ WRONGTYPE @ CRLF"
  "reply_integer WRONGTYPE = ''-'' @ WRONGTYPE @ CRLF"
  "reply_array WRONGTYPE = ''-'' @ WRONGTYPE @ CRLF"
  by (simp_all add: reply_bulk_def reply_integer_def reply_array_def substr_def WRONGTYPE_def)

lemma wrong_kind_list:
  assumes "map_of (store db) k = Some v" "get_type v \<noteq> LIST"
  shows "BlinkDB_lpush h db k x = (db, WRONGTYPE)" "BlinkDB_rpush h db k x = (db, WRONGTYPE)"
    "BlinkDB_lpop db k = (db, WRONGTYPE)" "BlinkDB_rpop db k = (db, WRONGTYPE)"
    "BlinkDB_lindex db k i = (db, WRONGTYPE)" "BlinkDB_llen db k = (db, WRONGTYPE)"
    "BlinkDB_lrange db k i j = (db, WRONGTYPE)"
  using assms
  by (cases v; simp add: BlinkDB_lpush_def BlinkDB_rpush_def create_list_if_needed_def
      BlinkDB_lpop_def BlinkDB_rpop_def BlinkDB_lindex_def BlinkDB_llen_def BlinkDB_lrange_def)+

lemma wrong_kind_set:
  assumes "map_of (store db) k = Some v" "get_type v \<noteq> SET"
  shows "BlinkDB_sadd h db k x = (db, WRONGTYPE)" "BlinkDB_sismember db k x = (db, WRONGTYPE)"
    "BlinkDB_srem db k x = (db, WRONGTYPE)" "BlinkDB_scard db k = (db, WRONGTYPE)"
    "BlinkDB_smembers db k = (db, WRONGTYPE)"
  using assms
  by (cases v; simp add: BlinkDB_sadd_def create_set_if_needed_def BlinkDB_sismember_def
      BlinkDB_srem_def BlinkDB_scard_def BlinkDB_smembers_def)+

lemma wrong_kind_hash:
  assumes "map_of (store db) k = Some v" "get_type v \<noteq> HASH"
  shows "BlinkDB_hset h db k f x = (db, WRONGTYPE)" "BlinkDB_hget db k f = (db, WRONGTYPE)"
    "BlinkDB_hexists db k f = (db, WRONGTYPE)" "BlinkDB_hdel db k f = (db, WRONGTYPE)"
    "BlinkDB_hlen db k = (db, WRONGTYPE)" "BlinkDB_hkeys db k = (db, WRONGTYPE)"
    "BlinkDB_hvals db k = (db, WRONGTYPE)" "BlinkDB_hgetall db k = (db, WRONGTYPE)"
  using assms
  by (cases v; simp add: BlinkDB_hset_def create_hash_if_needed_def BlinkDB_hget_def
      BlinkDB_hexists_def BlinkDB_hdel_def BlinkDB_hlen_def BlinkDB_hkeys_def BlinkDB_hvals_def
      BlinkDB_hgetall_def)+

text \<open>\<open>get\<close> is the one operation that touches the key before it looks at the kind.\<close>

lemma wrong_kind_get:
  assumes "map_of (store db) k = Some v" "get_type v \<noteq> STRING"
    and "BloomFilter_contains h (bloom_filter db) k"
  shows "BlinkDB_get h db k = (touch k db, WRONGTYPE)"
  using assms by (cases v; simp add: BlinkDB_get_def)

lemma kind_table_cases:
  assumes "map_of kind_table cmd = Some kind"
  shows "(cmd, kind) \<in> {(''get'', STRING),
      (''lpush'', LIST), (''rpush'', LIST), (''lpop'', LIST), (''rpop'', LIST),
      (''lindex'', LIST), (''llen'', LIST), (''lrange'', LIST),
      (''sadd'', SET), (''sismember'', SET), (''srem'', SET), (''scard'', SET),
      (''smembers'', SET),
      (''hset'', HASH), (''hget'', HASH), (''hexists'', HASH), (''hdel'', HASH),
      (''hlen'', HASH), (''hkeys'', HASH), (''hvals'', HASH), (''hgetall'', HASH)}"
  using map_of_SomeD [OF assms] by (simp add: kind_table_def)

text \<open>Every command but \<open>GET\<close>, on a key of another kind than its own: the database is
  returned as it was, and the response is the error of the wrong kind, unless an index
  that is not a number was answered first.\<close>

lemma wrong_kind_no_mutation:
  assumes "map_of kind_table cmd = Some kind" "cmd \<noteq> ''get''"
    and "map_of (store db) (command_parts ! 1) = Some v" "get_type v \<noteq> kind"
    and "min_parts cmd \<le> length command_parts"
  shows "fst (dispatch h db cmd command_parts) = db \<and>
         (snd (dispatch h db cmd command_parts) = ''-'' @ WRONGTYPE @ CRLF \<or>
          (\<exists>e. snd (dispatch h db cmd command_parts) = reply_exception e))"
  using kind_table_cases [OF assms(1)] assms(2-5)
  apply (simp only: insert_iff empty_iff prod.inject)
  apply (elim disjE conjE)
  apply (simp_all add: dispatch_simps min_parts_def command_table_def
      wrong_kind_list wrong_kind_set wrong_kind_hash split: sum.splits)
  apply blast+
  done

lemma wrong_kind_get_touches:
  assumes "map_of (store db) (command_parts ! 1) = Some v" "get_type v \<noteq> STRING"
    and "bloom_ok h db" "2 \<le> length command_parts"
  shows "dispatch h db ''get'' command_parts =
           (touch (command_parts ! 1) db, ''-'' @ WRONGTYPE @ CRLF)"
proof -
  have "BloomFilter_contains h (bloom_filter db) (command_parts ! 1)"
    using assms(1,3) by (simp add: bloom_ok_iff)
  then show ?thesis
    using assms by (simp add: dispatch_simps wrong_kind_get)
qed

text \<open>
  C5, at the command that does not comply. The key \<open>l\<close> holds a list and was used
  before the key \<open>b\<close>. \<open>GET l\<close> answers the error of the wrong kind and leaves the store
  as it was, but \<^verbatim>\<open>BlinkDB::get\<close> calls \<^verbatim>\<open>cache.access(key)\<close> before it tests the
  kind: the recency list is reordered and the database is not the one before the request.
  \<open>LLEN b\<close>, on the string \<open>b\<close>, returns the database unchanged, as every other command
  does.
\<close>

theorem get_on_wrong_kind_touches:
  "cache (lru_cache (fst (process_commands length BlinkDB_empty [''RPUSH l a'', ''SET b c'']))) =
     [''b'', ''l''] \<and>
   snd (process_command length
          (fst (process_commands length BlinkDB_empty [''RPUSH l a'', ''SET b c''])) ''GET l'') =
     ''-'' @ WRONGTYPE @ CRLF \<and>
   cache (lru_cache (fst (process_command length
          (fst (process_commands length BlinkDB_empty [''RPUSH l a'', ''SET b c''])) ''GET l''))) =
     [''l'', ''b''] \<and>
   fst (process_command length
          (fst (process_commands length BlinkDB_empty [''RPUSH l a'', ''SET b c''])) ''GET l'') \<noteq>
     fst (process_commands length BlinkDB_empty [''RPUSH l a'', ''SET b c'']) \<and>
   process_command length
          (fst (process_commands length BlinkDB_empty [''RPUSH l a'', ''SET b c''])) ''LLEN b'' =
     (fst (process_commands length BlinkDB_empty [''RPUSH l a'', ''SET b c'']), ''-'' @ WRONGTYPE @ CRLF)"
  by code_simp

subsection \<open>Collections are never left empty\<close>

lemma adds_no_empty_collection_iff:
  "adds_no_empty_collection db db' \<longleftrightarrow>
     (\<forall>k v. map_of (store db') k = Some v \<longrightarrow> is_empty_collection v \<longrightarrow>
        map_of (store db) k = Some v)"
proof
  assume l: "adds_no_empty_collection db db'"
  show "\<forall>k v. map_of (store db') k = Some v \<longrightarrow> is_empty_collection v \<longrightarrow>
          map_of (store db) k = Some v"
  proof (intro allI impI)
    fix k v
    assume kv: "map_of (store db') k = Some v" and e: "is_empty_collection v"
    from kv have "k \<in> fst ` set (store db')"
      by (metis map_of_eq_None_iff option.distinct(1))
    with l have "case map_of (store db') k of
        Some v \<Rightarrow> is_empty_collection v \<longrightarrow> map_of (store db) k = Some v | None \<Rightarrow> True"
      unfolding adds_no_empty_collection_def by blast
    with kv e show "map_of (store db) k = Some v" by simp
  qed
next
  assume "\<forall>k v. map_of (store db') k = Some v \<longrightarrow> is_empty_collection v \<longrightarrow>
            map_of (store db) k = Some v"
  then show "adds_no_empty_collection db db'"
    by (simp add: adds_no_empty_collection_def split: option.splits)
qed

lemma adds_no_empty_by_store:
  assumes "\<And>k v. map_of (store db') k = Some v \<Longrightarrow> is_empty_collection v \<Longrightarrow>
            map_of (store db) k = Some v"
  shows "adds_no_empty_collection db db'"
  using assms unfolding adds_no_empty_collection_iff by blast

lemma adds_no_empty_same_store: "store db' = store db \<Longrightarrow> adds_no_empty_collection db db'"
  by (simp add: adds_no_empty_collection_iff)

lemma adds_no_empty_refl: "adds_no_empty_collection db db"
  by (simp add: adds_no_empty_collection_iff)

text \<open>A database without empty collections stays so along every step that adds none.\<close>

lemma no_empty_by_adds:
  "no_empty_collection db \<Longrightarrow> adds_no_empty_collection db db' \<Longrightarrow> no_empty_collection db'"
  unfolding no_empty_collection_iff adds_no_empty_collection_iff by blast

lemma map_of_evict_SomeD:
  "map_of (store (evict_if_needed db)) k = Some v \<Longrightarrow> map_of (store db) k = Some v"
  by (auto simp: evict_if_needed_def delete_conv' split: if_splits sum.splits)

lemma size_of_empty [simp]:
  "ListType_llen [] = 0" "SetType_scard [] = 0" "HashType_hlen [] = 0"
  by (simp_all add: ListType_llen_def SetType_scard_def HashType_hlen_def int32_def)

lemma adds_no_empty_set: "adds_no_empty_collection db (BlinkDB_set h db k v)"
  by (rule adds_no_empty_by_store)
     (auto simp: BlinkDB_set_def Let_def update_conv' dest!: map_of_evict_SomeD split: if_splits)

lemma adds_no_empty_del: "adds_no_empty_collection db (BlinkDB_del db k)"
  by (rule adds_no_empty_by_store)
     (auto simp: BlinkDB_del_def Let_def delete_conv' split: if_splits)

lemma adds_no_empty_lpush: "adds_no_empty_collection db (fst (BlinkDB_lpush h db k v))"
  by (rule adds_no_empty_by_store)
     (auto simp: BlinkDB_lpush_def create_list_if_needed_def ListType_lpush_def Let_def update_conv'
       dest!: map_of_evict_SomeD split: if_splits option.splits DataType.splits)

lemma adds_no_empty_rpush: "adds_no_empty_collection db (fst (BlinkDB_rpush h db k v))"
  by (rule adds_no_empty_by_store)
     (auto simp: BlinkDB_rpush_def create_list_if_needed_def ListType_rpush_def Let_def update_conv'
       dest!: map_of_evict_SomeD split: if_splits option.splits DataType.splits)

lemma adds_no_empty_sadd: "adds_no_empty_collection db (fst (BlinkDB_sadd h db k v))"
  by (rule adds_no_empty_by_store)
     (auto simp: BlinkDB_sadd_def create_set_if_needed_def SetType_sadd_def Let_def update_conv'
       dest!: map_of_evict_SomeD split: if_splits option.splits DataType.splits)

lemma adds_no_empty_hset: "adds_no_empty_collection db (fst (BlinkDB_hset h db k f v))"
  by (rule adds_no_empty_by_store)
     (auto simp: BlinkDB_hset_def create_hash_if_needed_def HashType_hset_def Let_def update_conv'
       dest!: map_of_evict_SomeD split: if_splits option.splits DataType.splits)

lemma adds_no_empty_lpop: "adds_no_empty_collection db (fst (BlinkDB_lpop db k))"
  by (rule adds_no_empty_by_store)
     (auto simp: BlinkDB_lpop_def ListType_lpop_def Let_def
       update_conv' delete_conv' split: if_splits option.splits DataType.splits)

lemma adds_no_empty_rpop: "adds_no_empty_collection db (fst (BlinkDB_rpop db k))"
  by (rule adds_no_empty_by_store)
     (auto simp: BlinkDB_rpop_def ListType_rpop_def Let_def
       update_conv' delete_conv' split: if_splits option.splits DataType.splits)

lemma adds_no_empty_srem: "adds_no_empty_collection db (fst (BlinkDB_srem db k v))"
  by (rule adds_no_empty_by_store)
     (auto simp: BlinkDB_srem_def SetType_srem_def Let_def
       update_conv' delete_conv' split: if_splits option.splits DataType.splits)

lemma adds_no_empty_hdel: "adds_no_empty_collection db (fst (BlinkDB_hdel db k f))"
  by (rule adds_no_empty_by_store)
     (auto simp: BlinkDB_hdel_def HashType_hdel_def Let_def
       update_conv' delete_conv' split: if_splits option.splits DataType.splits)

lemma store_of_reads:
  "store (fst (BlinkDB_get h db k)) = store db"
  "store (fst (BlinkDB_lindex db k i)) = store db"
  "store (fst (BlinkDB_llen db k)) = store db"
  "store (fst (BlinkDB_lrange db k i j)) = store db"
  "store (fst (BlinkDB_sismember db k x)) = store db"
  "store (fst (BlinkDB_scard db k)) = store db"
  "store (fst (BlinkDB_smembers db k)) = store db"
  "store (fst (BlinkDB_hget db k x)) = store db"
  "store (fst (BlinkDB_hexists db k x)) = store db"
  "store (fst (BlinkDB_hlen db k)) = store db"
  "store (fst (BlinkDB_hkeys db k)) = store db"
  "store (fst (BlinkDB_hvals db k)) = store db"
  "store (fst (BlinkDB_hgetall db k)) = store db"
  by (simp_all add: BlinkDB_get_def BlinkDB_lindex_def BlinkDB_llen_def BlinkDB_lrange_def
      BlinkDB_sismember_def BlinkDB_scard_def BlinkDB_smembers_def BlinkDB_hget_def
      BlinkDB_hexists_def BlinkDB_hlen_def BlinkDB_hkeys_def BlinkDB_hvals_def BlinkDB_hgetall_def
      Let_def split: option.splits DataType.splits)

lemmas adds_no_empty_reads = store_of_reads [THEN adds_no_empty_same_store]

text \<open>No request binds a key to an empty collection, whatever the database is.\<close>

lemma adds_no_empty_dispatch:
  "adds_no_empty_collection db (fst (dispatch h db cmd command_parts))"
proof (cases "map_of command_table cmd")
  case None
  then show ?thesis by (simp add: dispatch_unknown adds_no_empty_refl)
next
  case (Some n)
  show ?thesis
    using command_table_cases [OF Some]
    apply (simp only: insert_iff empty_iff prod.inject)
    apply (elim disjE conjE)
    apply (simp_all add: dispatch_simps adds_no_empty_refl adds_no_empty_reads adds_no_empty_set
        adds_no_empty_del adds_no_empty_lpush adds_no_empty_rpush adds_no_empty_sadd
        adds_no_empty_hset adds_no_empty_lpop adds_no_empty_rpop adds_no_empty_srem
        adds_no_empty_hdel split: sum.splits)
    done
qed

lemma adds_no_empty_process_command:
  "adds_no_empty_collection db (fst (process_command h db command_str))"
  by (simp add: process_command_def Let_def adds_no_empty_dispatch adds_no_empty_refl)

lemma no_empty_process_command:
  "no_empty_collection db \<Longrightarrow> no_empty_collection (fst (process_command h db command_str))"
  by (erule no_empty_by_adds) (rule adds_no_empty_process_command)

subsection \<open>The removal of the last element\<close>

lemma size_eq_0_iff:
  "length xs < 2 ^ 31 \<Longrightarrow> ListType_llen xs = 0 \<longleftrightarrow> xs = []"
  "length xs < 2 ^ 31 \<Longrightarrow> SetType_scard xs = 0 \<longleftrightarrow> xs = []"
  "length fs < 2 ^ 31 \<Longrightarrow> HashType_hlen fs = 0 \<longleftrightarrow> fs = []"
  by (simp_all add: ListType_llen_def SetType_scard_def HashType_hlen_def int32_id)

lemma lower_names2:
  "[tolower CHR ''T'', tolower CHR ''Y'', tolower CHR ''P'', tolower CHR ''E''] = ''type''"
  "[tolower CHR ''L'', tolower CHR ''P'', tolower CHR ''O'', tolower CHR ''P''] = ''lpop''"
  "[tolower CHR ''R'', tolower CHR ''P'', tolower CHR ''O'', tolower CHR ''P''] = ''rpop''"
  "[tolower CHR ''S'', tolower CHR ''R'', tolower CHR ''E'', tolower CHR ''M''] = ''srem''"
  "[tolower CHR ''H'', tolower CHR ''D'', tolower CHR ''E'', tolower CHR ''L''] = ''hdel''"
  by code_simp+

lemma is_token_names2 [simp]:
  "is_token ''TYPE''" "is_token ''LPOP''" "is_token ''RPOP''" "is_token ''SREM''" "is_token ''HDEL''"
  by (simp_all add: is_token_def isspace_def)

lemma process_TYPE:
  assumes "is_token k"
  shows "process_command h db (''TYPE '' @ k) = (db, ''+'' @ BlinkDB_type h db k @ CRLF)"
proof -
  have "tokenize (''TYPE'' @ '' '' @ k) = [''TYPE'', k]"
    by (rule tokenize_2) (simp_all add: assms)
  then have "tokenize (''TYPE '' @ k) = [''TYPE'', k]" by simp
  then show ?thesis
    by (simp add: process_command_tokens lower_names2 dispatch_simps)
qed

lemma process_LPOP:
  assumes "is_token k"
  shows "process_command h db (''LPOP '' @ k) = apsnd reply_bulk (BlinkDB_lpop db k)"
proof -
  have "tokenize (''LPOP'' @ '' '' @ k) = [''LPOP'', k]"
    by (rule tokenize_2) (simp_all add: assms)
  then have "tokenize (''LPOP '' @ k) = [''LPOP'', k]" by simp
  then show ?thesis
    by (simp add: process_command_tokens lower_names2 dispatch_simps)
qed

lemma process_RPOP:
  assumes "is_token k"
  shows "process_command h db (''RPOP '' @ k) = apsnd reply_bulk (BlinkDB_rpop db k)"
proof -
  have "tokenize (''RPOP'' @ '' '' @ k) = [''RPOP'', k]"
    by (rule tokenize_2) (simp_all add: assms)
  then have "tokenize (''RPOP '' @ k) = [''RPOP'', k]" by simp
  then show ?thesis
    by (simp add: process_command_tokens lower_names2 dispatch_simps)
qed

lemma process_SREM:
  assumes "is_token k" "is_token x"
  shows "process_command h db (''SREM '' @ k @ '' '' @ x) = apsnd reply_integer (BlinkDB_srem db k x)"
proof -
  have "tokenize (''SREM'' @ '' '' @ k @ '' '' @ x) = [''SREM'', k, x]"
    by (rule tokenize_3) (simp_all add: assms)
  then have "tokenize (''SREM '' @ k @ '' '' @ x) = [''SREM'', k, x]" by simp
  then show ?thesis
    by (simp add: process_command_tokens lower_names2 dispatch_simps)
qed

lemma process_HDEL:
  assumes "is_token k" "is_token x"
  shows "process_command h db (''HDEL '' @ k @ '' '' @ x) = apsnd reply_integer (BlinkDB_hdel db k x)"
proof -
  have "tokenize (''HDEL'' @ '' '' @ k @ '' '' @ x) = [''HDEL'', k, x]"
    by (rule tokenize_3) (simp_all add: assms)
  then have "tokenize (''HDEL '' @ k @ '' '' @ x) = [''HDEL'', k, x]" by simp
  then show ?thesis
    by (simp add: process_command_tokens lower_names2 dispatch_simps)
qed

lemma key_deleted_erase:
  assumes "is_token k" "distinct (cache (lru_cache db))"
  shows "key_deleted h (erase_key k (touch k (db\<lparr>store := st\<rparr>))) k"
  unfolding key_deleted_def process_TYPE [OF assms(1)]
  using access_remove_not_member [OF assms(2), of k]
  by (simp add: delete_conv' BlinkDB_type_def)

text \<open>The pops erase the key also when the list it holds is empty already.\<close>

lemma lpop_effect:
  assumes "map_of (store db) k = Some (ListType es)" "length es < 2 ^ 31"
  shows "fst (BlinkDB_lpop db k) =
           (if length es \<le> 1 then erase_key k (touch k (db\<lparr>store := AList.update k (ListType []) (store db)\<rparr>))
            else touch k (db\<lparr>store := AList.update k (ListType (tl es)) (store db)\<rparr>))"
proof -
  have b: "length (tl es) < 2 ^ 31" using assms(2) by simp
  have e: "tl es = [] \<longleftrightarrow> length es \<le> 1" by (cases es) auto
  show ?thesis
  proof (cases "tl es = []")
    case True
    then show ?thesis
      using assms(1) e
      by (cases "es = []") (simp_all add: BlinkDB_lpop_def ListType_lpop_def Let_def)
  next
    case False
    then have "es \<noteq> []" by auto
    with False show ?thesis
      using assms(1) e
      by (simp add: BlinkDB_lpop_def ListType_lpop_def Let_def size_eq_0_iff(1) [OF b])
  qed
qed

lemma rpop_effect:
  assumes "map_of (store db) k = Some (ListType es)" "length es < 2 ^ 31"
  shows "fst (BlinkDB_rpop db k) =
           (if length es \<le> 1 then erase_key k (touch k (db\<lparr>store := AList.update k (ListType []) (store db)\<rparr>))
            else touch k (db\<lparr>store := AList.update k (ListType (butlast es)) (store db)\<rparr>))"
proof -
  have b: "length (butlast es) < 2 ^ 31" using assms(2) by simp
  have e: "butlast es = [] \<longleftrightarrow> length es \<le> 1"
    by (cases es rule: rev_cases) auto
  show ?thesis
  proof (cases "butlast es = []")
    case True
    then show ?thesis
      using assms(1) e
      by (cases "es = []") (simp_all add: BlinkDB_rpop_def ListType_rpop_def Let_def)
  next
    case False
    then have "es \<noteq> []" by auto
    with False show ?thesis
      using assms(1) e
      by (simp add: BlinkDB_rpop_def ListType_rpop_def Let_def size_eq_0_iff(1) [OF b])
  qed
qed

lemma srem_effect:
  assumes "map_of (store db) k = Some (SetType es)" "length es < 2 ^ 31"
  shows "fst (BlinkDB_srem db k x) =
           (if set es \<subseteq> {x} then erase_key k (touch k (db\<lparr>store := AList.update k (SetType []) (store db)\<rparr>))
            else touch k (db\<lparr>store := AList.update k (SetType (removeAll x es)) (store db)\<rparr>))"
proof -
  have "length (removeAll x es) \<le> length es" by simp
  then have b: "length (removeAll x es) < 2 ^ 31" using assms(2) by linarith
  have e: "removeAll x es = [] \<longleftrightarrow> set es \<subseteq> {x}"
    by (metis set_removeAll Diff_eq_empty_iff set_empty)
  show ?thesis
  proof (cases "removeAll x es = []")
    case True
    then show ?thesis
      using assms(1) e
      by (simp add: BlinkDB_srem_def SetType_srem_def Let_def)
  next
    case False
    then show ?thesis
      using assms(1) e
      by (simp add: BlinkDB_srem_def SetType_srem_def Let_def size_eq_0_iff(2) [OF b])
  qed
qed

lemma hdel_effect:
  assumes "map_of (store db) k = Some (HashType fs)" "length fs < 2 ^ 31"
  shows "fst (BlinkDB_hdel db k x) =
           (if fst ` set fs \<subseteq> {x} then erase_key k (touch k (db\<lparr>store := AList.update k (HashType []) (store db)\<rparr>))
            else touch k (db\<lparr>store := AList.update k (HashType (AList.delete x fs)) (store db)\<rparr>))"
proof -
  have "length (AList.delete x fs) \<le> length fs" by (rule length_delete_le)
  then have b: "length (AList.delete x fs) < 2 ^ 31" using assms(2) by linarith
  have e: "AList.delete x fs = [] \<longleftrightarrow> fst ` set fs \<subseteq> {x}"
    by (auto simp: AList.delete_eq filter_empty_conv)
  show ?thesis
  proof (cases "AList.delete x fs = []")
    case True
    then show ?thesis
      using assms(1) e
      by (simp add: BlinkDB_hdel_def HashType_hdel_def Let_def)
  next
    case False
    then show ?thesis
      using assms(1) e
      by (simp add: BlinkDB_hdel_def HashType_hdel_def Let_def size_eq_0_iff(3) [OF b])
  qed
qed

text \<open>
  C6, as the code has it. Whatever the database is, as long as its recency list has no
  duplicates: no request binds a key to an empty collection that the key was not bound to
  before the request, so a database without empty collections stays without. For a key
  \<open>k\<close> that holds a list, a set or a hash with fewer than \<open>2 ^ 31\<close> elements: \<open>LPOP\<close> and
  \<open>RPOP\<close> delete the key when the list has at most one element and otherwise leave it
  bound to the rest of the list, which is not empty; \<open>SREM\<close> deletes it when the set has
  no member but the one removed and otherwise leaves it bound to the other members;
  \<open>HDEL\<close> does the same with the fields of the hash. A deleted key is in neither the
  store nor the recency list, and \<open>TYPE\<close> answers \<open>none\<close> for it.
\<close>

theorem emptied_collection_is_deleted:
  assumes "distinct (cache (lru_cache db))" "is_token k" "is_token x"
  shows "adds_no_empty_collection db (fst (process_command h db command_str)) \<and>
    (no_empty_collection db \<longrightarrow> no_empty_collection (fst (process_command h db command_str))) \<and>
    (map_of (store db) k = Some (ListType es) \<and> length es < 2 ^ 31 \<longrightarrow>
       (if length es \<le> 1 then key_deleted h (fst (process_command h db (''LPOP '' @ k))) k
        else map_of (store (fst (process_command h db (''LPOP '' @ k)))) k = Some (ListType (tl es)) \<and>
             tl es \<noteq> []) \<and>
       (if length es \<le> 1 then key_deleted h (fst (process_command h db (''RPOP '' @ k))) k
        else map_of (store (fst (process_command h db (''RPOP '' @ k)))) k =
               Some (ListType (butlast es)) \<and> butlast es \<noteq> [])) \<and>
    (map_of (store db) k = Some (SetType ms) \<and> length ms < 2 ^ 31 \<longrightarrow>
       (if set ms \<subseteq> {x}
        then key_deleted h (fst (process_command h db (''SREM '' @ k @ '' '' @ x))) k
        else map_of (store (fst (process_command h db (''SREM '' @ k @ '' '' @ x)))) k =
               Some (SetType (removeAll x ms)) \<and> removeAll x ms \<noteq> [])) \<and>
    (map_of (store db) k = Some (HashType fs) \<and> length fs < 2 ^ 31 \<longrightarrow>
       (if fst ` set fs \<subseteq> {x}
        then key_deleted h (fst (process_command h db (''HDEL '' @ k @ '' '' @ x))) k
        else map_of (store (fst (process_command h db (''HDEL '' @ k @ '' '' @ x)))) k =
               Some (HashType (AList.delete x fs)) \<and> AList.delete x fs \<noteq> []))"
proof (intro conjI impI)
  show "adds_no_empty_collection db (fst (process_command h db command_str))"
    by (rule adds_no_empty_process_command)
next
  assume "no_empty_collection db"
  then show "no_empty_collection (fst (process_command h db command_str))"
    by (rule no_empty_process_command)
next
  assume a: "map_of (store db) k = Some (ListType es) \<and> length es < 2 ^ 31"
  have t: "\<not> length es \<le> 1 \<Longrightarrow> tl es \<noteq> []" by (cases es) auto
  show "if length es \<le> 1 then key_deleted h (fst (process_command h db (''LPOP '' @ k))) k
        else map_of (store (fst (process_command h db (''LPOP '' @ k)))) k = Some (ListType (tl es)) \<and>
             tl es \<noteq> []"
    unfolding process_LPOP [OF assms(2)] fst_apsnd
      lpop_effect [OF conjunct1 [OF a] conjunct2 [OF a]]
    using t by (simp add: key_deleted_erase [OF assms(2,1)] update_conv')
  have b: "\<not> length es \<le> 1 \<Longrightarrow> butlast es \<noteq> []"
    by (cases es rule: rev_cases) auto
  show "if length es \<le> 1 then key_deleted h (fst (process_command h db (''RPOP '' @ k))) k
        else map_of (store (fst (process_command h db (''RPOP '' @ k)))) k =
               Some (ListType (butlast es)) \<and> butlast es \<noteq> []"
    unfolding process_RPOP [OF assms(2)] fst_apsnd
      rpop_effect [OF conjunct1 [OF a] conjunct2 [OF a]]
    using b by (simp add: key_deleted_erase [OF assms(2,1)] update_conv')
next
  assume a: "map_of (store db) k = Some (SetType ms) \<and> length ms < 2 ^ 31"
  have r: "\<not> set ms \<subseteq> {x} \<Longrightarrow> removeAll x ms \<noteq> []"
    by (metis set_removeAll Diff_eq_empty_iff set_empty)
  show "if set ms \<subseteq> {x}
        then key_deleted h (fst (process_command h db (''SREM '' @ k @ '' '' @ x))) k
        else map_of (store (fst (process_command h db (''SREM '' @ k @ '' '' @ x)))) k =
               Some (SetType (removeAll x ms)) \<and> removeAll x ms \<noteq> []"
    unfolding process_SREM [OF assms(2,3)] fst_apsnd
      srem_effect [OF conjunct1 [OF a] conjunct2 [OF a]]
    using r by (simp add: key_deleted_erase [OF assms(2,1)] update_conv')
next
  assume a: "map_of (store db) k = Some (HashType fs) \<and> length fs < 2 ^ 31"
  have r: "\<not> fst ` set fs \<subseteq> {x} \<Longrightarrow> AList.delete x fs \<noteq> []"
    by (auto simp: AList.delete_eq filter_empty_conv)
  show "if fst ` set fs \<subseteq> {x}
        then key_deleted h (fst (process_command h db (''HDEL '' @ k @ '' '' @ x))) k
        else map_of (store (fst (process_command h db (''HDEL '' @ k @ '' '' @ x)))) k =
               Some (HashType (AList.delete x fs)) \<and> AList.delete x fs \<noteq> []"
    unfolding process_HDEL [OF assms(2,3)] fst_apsnd
      hdel_effect [OF conjunct1 [OF a] conjunct2 [OF a]]
    using r by (simp add: key_deleted_erase [OF assms(2,1)] update_conv')
qed

theorem emptied_collection_is_deleted_witness:
  "no_empty_collection (fst (process_command length BlinkDB_empty ''RPUSH k a'')) \<and>
   adds_no_empty_collection (fst (process_command length BlinkDB_empty ''RPUSH k a''))
     (fst (process_command length (fst (process_command length BlinkDB_empty ''RPUSH k a'')) ''LPOP k'')) \<and>
   no_empty_collection
     (fst (process_command length (fst (process_command length BlinkDB_empty ''RPUSH k a'')) ''LPOP k'')) \<and>
   key_deleted length
     (fst (process_command length (fst (process_command length BlinkDB_empty ''RPUSH k a'')) ''LPOP k''))
     ''k''"
proof -
  let ?db = "fst (process_command length BlinkDB_empty ''RPUSH k a'')"
  have 1: "no_empty_collection ?db" by code_simp
  have 2: "distinct (cache (lru_cache ?db))" by code_simp
  have 3: "is_token ''k''" by (simp add: is_token_def isspace_def)
  have 4: "is_token ''a''" by (simp add: is_token_def isspace_def)
  have m: "map_of (store ?db) ''k'' = Some (ListType [''a''])" by code_simp
  have l: "length [''a''] < (2 :: nat) ^ 31" by simp
  note w = emptied_collection_is_deleted [OF 2 3 4,
      where h = length and command_str = "''LPOP k''" and es = "[''a'']" and ms = "[]" and fs = "[]"]
  from w have a: "adds_no_empty_collection ?db (fst (process_command length ?db ''LPOP k''))"
    by (rule conjunct1)
  from w 1 have n: "no_empty_collection (fst (process_command length ?db ''LPOP k''))"
    by blast
  from w m l have b: "key_deleted length (fst (process_command length ?db (''LPOP '' @ ''k''))) ''k''"
    by simp
  have c: "''LPOP '' @ ''k'' = ''LPOP k''" by simp
  show ?thesis using 1 a n b unfolding c by blast
qed

text \<open>The claim as it is worded fails on a collection that is empty in the persistence
  file. The line \<^verbatim>\<open>L m L\<close> is a list without elements; the database read from it binds
  \<open>m\<close> to the empty list, \<open>TYPE\<close> and \<open>LLEN\<close> answer for it, and after the request \<open>LLEN\<close> the
  key is still bound to the empty list.\<close>

theorem emptied_collection_counterexample:
  "BlinkDB_new length (Some ''L m L\<newline>'') =
     Some (Inr \<lparr>store = [(''m'', ListType [])],
                lru_cache = \<lparr>cache = [''m''], max_size = 1000\<rparr>, bloom_filter = {1}\<rparr>) \<and>
   process_command length
     \<lparr>store = [(''m'', ListType [])],
      lru_cache = \<lparr>cache = [''m''], max_size = 1000\<rparr>, bloom_filter = {1}\<rparr> ''LLEN m'' =
     (\<lparr>store = [(''m'', ListType [])],
       lru_cache = \<lparr>cache = [''m''], max_size = 1000\<rparr>, bloom_filter = {1}\<rparr>, '':0'' @ CRLF) \<and>
   snd (process_command length
     \<lparr>store = [(''m'', ListType [])],
      lru_cache = \<lparr>cache = [''m''], max_size = 1000\<rparr>, bloom_filter = {1}\<rparr> ''TYPE m'') =
     ''+list'' @ CRLF \<and>
   \<not> no_empty_collection (fst (process_command length
     \<lparr>store = [(''m'', ListType [])],
      lru_cache = \<lparr>cache = [''m''], max_size = 1000\<rparr>, bloom_filter = {1}\<rparr> ''LLEN m''))"
  by code_simp

subsection \<open>The states the program reaches\<close>

lemma BlinkDB_inv_empty: "BlinkDB_inv h BlinkDB_empty"
  by (simp add: BlinkDB_inv_def lru_ok_def bloom_ok_def BlinkDB_empty_def)

lemma no_empty_collection_empty: "no_empty_collection BlinkDB_empty"
  by (simp add: no_empty_collection_def BlinkDB_empty_def)

lemma lru_cache_evict:
  "lru_ok (lru_cache db) \<Longrightarrow> lru_cache (evict_if_needed db) = lru_cache db"
  by (simp add: evict_if_needed_noop)

lemma bloom_filter_evict [simp]: "bloom_filter (evict_if_needed db) = bloom_filter db"
  by (simp add: evict_if_needed_def split: sum.splits)

lemma lru_ok_writes:
  assumes "lru_ok (lru_cache db)"
  shows "lru_ok (lru_cache (BlinkDB_set h db k v))"
    "lru_ok (lru_cache (BlinkDB_del db k))"
    "lru_ok (lru_cache (fst (BlinkDB_lpush h db k v)))"
    "lru_ok (lru_cache (fst (BlinkDB_rpush h db k v)))"
    "lru_ok (lru_cache (fst (BlinkDB_sadd h db k v)))"
    "lru_ok (lru_cache (fst (BlinkDB_hset h db k f v)))"
    "lru_ok (lru_cache (fst (BlinkDB_lpop db k)))"
    "lru_ok (lru_cache (fst (BlinkDB_rpop db k)))"
    "lru_ok (lru_cache (fst (BlinkDB_srem db k v)))"
    "lru_ok (lru_cache (fst (BlinkDB_hdel db k f)))"
  using assms
  by (auto simp: BlinkDB_set_def BlinkDB_del_def BlinkDB_lpush_def BlinkDB_rpush_def
      BlinkDB_sadd_def BlinkDB_hset_def BlinkDB_lpop_def BlinkDB_rpop_def BlinkDB_srem_def
      BlinkDB_hdel_def create_list_if_needed_def create_set_if_needed_def
      create_hash_if_needed_def Let_def lru_cache_evict lru_ok_access lru_ok_remove
      split: option.splits DataType.splits prod.splits)

lemma lru_ok_reads:
  assumes "lru_ok (lru_cache db)"
  shows "lru_ok (lru_cache (fst (BlinkDB_get h db k)))"
    "lru_ok (lru_cache (fst (BlinkDB_lindex db k i)))"
    "lru_ok (lru_cache (fst (BlinkDB_llen db k)))"
    "lru_ok (lru_cache (fst (BlinkDB_lrange db k i j)))"
    "lru_ok (lru_cache (fst (BlinkDB_sismember db k x)))"
    "lru_ok (lru_cache (fst (BlinkDB_scard db k)))"
    "lru_ok (lru_cache (fst (BlinkDB_smembers db k)))"
    "lru_ok (lru_cache (fst (BlinkDB_hget db k x)))"
    "lru_ok (lru_cache (fst (BlinkDB_hexists db k x)))"
    "lru_ok (lru_cache (fst (BlinkDB_hlen db k)))"
    "lru_ok (lru_cache (fst (BlinkDB_hkeys db k)))"
    "lru_ok (lru_cache (fst (BlinkDB_hvals db k)))"
    "lru_ok (lru_cache (fst (BlinkDB_hgetall db k)))"
  using assms
  by (auto simp: BlinkDB_get_def BlinkDB_lindex_def BlinkDB_llen_def BlinkDB_lrange_def
      BlinkDB_sismember_def BlinkDB_scard_def BlinkDB_smembers_def BlinkDB_hget_def
      BlinkDB_hexists_def BlinkDB_hlen_def BlinkDB_hkeys_def BlinkDB_hvals_def BlinkDB_hgetall_def
      Let_def lru_ok_access split: option.splits DataType.splits)

lemma lru_ok_dispatch:
  assumes "lru_ok (lru_cache db)"
  shows "lru_ok (lru_cache (fst (dispatch h db cmd command_parts)))"
proof (cases "map_of command_table cmd")
  case None
  then show ?thesis using assms by (simp add: dispatch_unknown)
next
  case (Some n)
  show ?thesis
    using command_table_cases [OF Some] assms
    apply (simp only: insert_iff empty_iff prod.inject)
    apply (elim disjE conjE)
    apply (simp_all add: dispatch_simps lru_ok_writes lru_ok_reads split: sum.splits)
    done
qed

lemma bloom_ok_by_store:
  assumes "bloom_ok h db" "bloom_filter db \<subseteq> bloom_filter db'"
    and "\<And>k v. map_of (store db') k = Some v \<Longrightarrow>
            (\<exists>v'. map_of (store db) k = Some v') \<or> BloomFilter_contains h (bloom_filter db') k"
  shows "bloom_ok h db'"
  using assms unfolding bloom_ok_iff BloomFilter_contains_def by blast

lemma BloomFilter_add_mono [simp]: "bits \<subseteq> BloomFilter_add h k bits"
  by (auto simp: BloomFilter_add_def)

lemma bloom_ok_set: "bloom_ok h db \<Longrightarrow> bloom_ok h (BlinkDB_set h db k v)"
  by (erule bloom_ok_by_store)
     (auto simp: BlinkDB_set_def Let_def update_conv' dest!: map_of_evict_SomeD split: if_splits)

lemma bloom_ok_del: "bloom_ok h db \<Longrightarrow> bloom_ok h (BlinkDB_del db k)"
  by (erule bloom_ok_by_store)
     (auto simp: BlinkDB_del_def Let_def delete_conv' split: if_splits)

lemma bloom_ok_lpush: "bloom_ok h db \<Longrightarrow> bloom_ok h (fst (BlinkDB_lpush h db k v))"
  by (erule bloom_ok_by_store)
     (auto simp: BlinkDB_lpush_def create_list_if_needed_def Let_def update_conv'
       dest!: map_of_evict_SomeD split: if_splits option.splits DataType.splits)

lemma bloom_ok_rpush: "bloom_ok h db \<Longrightarrow> bloom_ok h (fst (BlinkDB_rpush h db k v))"
  by (erule bloom_ok_by_store)
     (auto simp: BlinkDB_rpush_def create_list_if_needed_def Let_def update_conv'
       dest!: map_of_evict_SomeD split: if_splits option.splits DataType.splits)

lemma bloom_ok_sadd: "bloom_ok h db \<Longrightarrow> bloom_ok h (fst (BlinkDB_sadd h db k v))"
  by (erule bloom_ok_by_store)
     (auto simp: BlinkDB_sadd_def create_set_if_needed_def Let_def update_conv'
       dest!: map_of_evict_SomeD split: if_splits option.splits DataType.splits prod.splits)

lemma bloom_ok_hset: "bloom_ok h db \<Longrightarrow> bloom_ok h (fst (BlinkDB_hset h db k f v))"
  by (erule bloom_ok_by_store)
     (auto simp: BlinkDB_hset_def create_hash_if_needed_def Let_def update_conv'
       dest!: map_of_evict_SomeD split: if_splits option.splits DataType.splits prod.splits)

lemma bloom_ok_lpop: "bloom_ok h db \<Longrightarrow> bloom_ok h (fst (BlinkDB_lpop db k))"
  by (erule bloom_ok_by_store)
     (auto simp: BlinkDB_lpop_def Let_def update_conv' delete_conv'
       split: if_splits option.splits DataType.splits prod.splits)

lemma bloom_ok_rpop: "bloom_ok h db \<Longrightarrow> bloom_ok h (fst (BlinkDB_rpop db k))"
  by (erule bloom_ok_by_store)
     (auto simp: BlinkDB_rpop_def Let_def update_conv' delete_conv'
       split: if_splits option.splits DataType.splits prod.splits)

lemma bloom_ok_srem: "bloom_ok h db \<Longrightarrow> bloom_ok h (fst (BlinkDB_srem db k v))"
  by (erule bloom_ok_by_store)
     (auto simp: BlinkDB_srem_def Let_def update_conv' delete_conv'
       split: if_splits option.splits DataType.splits prod.splits)

lemma bloom_ok_hdel: "bloom_ok h db \<Longrightarrow> bloom_ok h (fst (BlinkDB_hdel db k f))"
  by (erule bloom_ok_by_store)
     (auto simp: BlinkDB_hdel_def Let_def update_conv' delete_conv'
       split: if_splits option.splits DataType.splits prod.splits)

lemmas bloom_ok_writes = bloom_ok_set bloom_ok_del bloom_ok_lpush bloom_ok_rpush bloom_ok_sadd
  bloom_ok_hset bloom_ok_lpop bloom_ok_rpop bloom_ok_srem bloom_ok_hdel

lemma bloom_ok_store_cong:
  "store db' = store db \<Longrightarrow> bloom_filter db' = bloom_filter db \<Longrightarrow>
   bloom_ok h db' = bloom_ok h db"
  by (simp add: bloom_ok_def)

lemma bloom_filter_of_reads:
  "bloom_filter (fst (BlinkDB_get h db k)) = bloom_filter db"
  "bloom_filter (fst (BlinkDB_lindex db k i)) = bloom_filter db"
  "bloom_filter (fst (BlinkDB_llen db k)) = bloom_filter db"
  "bloom_filter (fst (BlinkDB_lrange db k i j)) = bloom_filter db"
  "bloom_filter (fst (BlinkDB_sismember db k x)) = bloom_filter db"
  "bloom_filter (fst (BlinkDB_scard db k)) = bloom_filter db"
  "bloom_filter (fst (BlinkDB_smembers db k)) = bloom_filter db"
  "bloom_filter (fst (BlinkDB_hget db k x)) = bloom_filter db"
  "bloom_filter (fst (BlinkDB_hexists db k x)) = bloom_filter db"
  "bloom_filter (fst (BlinkDB_hlen db k)) = bloom_filter db"
  "bloom_filter (fst (BlinkDB_hkeys db k)) = bloom_filter db"
  "bloom_filter (fst (BlinkDB_hvals db k)) = bloom_filter db"
  "bloom_filter (fst (BlinkDB_hgetall db k)) = bloom_filter db"
  by (simp_all add: BlinkDB_get_def BlinkDB_lindex_def BlinkDB_llen_def BlinkDB_lrange_def
      BlinkDB_sismember_def BlinkDB_scard_def BlinkDB_smembers_def BlinkDB_hget_def
      BlinkDB_hexists_def BlinkDB_hlen_def BlinkDB_hkeys_def BlinkDB_hvals_def BlinkDB_hgetall_def
      Let_def split: option.splits DataType.splits)

lemmas bloom_ok_reads = bloom_ok_store_cong [OF store_of_reads(1) bloom_filter_of_reads(1)]
  bloom_ok_store_cong [OF store_of_reads(2) bloom_filter_of_reads(2)]
  bloom_ok_store_cong [OF store_of_reads(3) bloom_filter_of_reads(3)]
  bloom_ok_store_cong [OF store_of_reads(4) bloom_filter_of_reads(4)]
  bloom_ok_store_cong [OF store_of_reads(5) bloom_filter_of_reads(5)]
  bloom_ok_store_cong [OF store_of_reads(6) bloom_filter_of_reads(6)]
  bloom_ok_store_cong [OF store_of_reads(7) bloom_filter_of_reads(7)]
  bloom_ok_store_cong [OF store_of_reads(8) bloom_filter_of_reads(8)]
  bloom_ok_store_cong [OF store_of_reads(9) bloom_filter_of_reads(9)]
  bloom_ok_store_cong [OF store_of_reads(10) bloom_filter_of_reads(10)]
  bloom_ok_store_cong [OF store_of_reads(11) bloom_filter_of_reads(11)]
  bloom_ok_store_cong [OF store_of_reads(12) bloom_filter_of_reads(12)]
  bloom_ok_store_cong [OF store_of_reads(13) bloom_filter_of_reads(13)]

lemma bloom_ok_dispatch:
  assumes "bloom_ok h db"
  shows "bloom_ok h (fst (dispatch h db cmd command_parts))"
proof (cases "map_of command_table cmd")
  case None
  then show ?thesis using assms by (simp add: dispatch_unknown)
next
  case (Some n)
  show ?thesis
    using command_table_cases [OF Some] assms
    apply (simp only: insert_iff empty_iff prod.inject)
    apply (elim disjE conjE)
    apply (simp_all add: dispatch_simps bloom_ok_writes bloom_ok_reads split: sum.splits)
    done
qed

text \<open>Every request keeps the invariant of the database, which holds in the empty one.\<close>

lemma BlinkDB_inv_process_command:
  "BlinkDB_inv h db \<Longrightarrow> BlinkDB_inv h (fst (process_command h db command_str))"
  by (simp add: BlinkDB_inv_def process_command_def Let_def lru_ok_dispatch bloom_ok_dispatch)

lemma load_insert_inv:
  "BlinkDB_inv h db \<Longrightarrow> BlinkDB_inv h (load_insert h db k v)"
  unfolding BlinkDB_inv_def
  by (auto simp: load_insert_def Let_def lru_ok_access bloom_ok_iff update_conv')

lemma load_line_inv:
  "BlinkDB_inv h db \<Longrightarrow> load_line h db line = Some (Inr db') \<Longrightarrow> BlinkDB_inv h db'"
  by (auto simp: load_line_def Let_def load_insert_inv
      split: if_splits option.splits sum.splits)

lemma load_lines_inv:
  "BlinkDB_inv h db \<Longrightarrow> load_lines h db ls = Some (Inr db') \<Longrightarrow> BlinkDB_inv h db'"
proof (induction ls arbitrary: db)
  case Nil
  then show ?case by simp
next
  case (Cons l ls)
  then show ?case
    by (auto split: option.splits sum.splits dest: load_line_inv)
qed

lemma BlinkDB_new_inv: "BlinkDB_new h file = Some (Inr db) \<Longrightarrow> BlinkDB_inv h db"
  using BlinkDB_inv_empty [of h]
  by (auto simp: BlinkDB_new_def load_from_disk_def split: option.splits dest: load_lines_inv)

end
